theory Spec2Isabelle
  imports Main
begin

section \<open>The network diagnostic tool: exceptions, output and the outside world\<close>

text \<open>
  The program is \<^verbatim>\<open>net_diag_tool.py\<close>. Everything it does is an effect: it prints,
  resolves a name, starts \<^verbatim>\<open>ping\<close> and \<^verbatim>\<open>traceroute\<close>, opens sockets. The model
  threads a world through every function; the world holds the chronological trace of the
  effects performed so far and the one piece of process-wide state the program mutates, the
  default socket timeout of the \<^verbatim>\<open>socket\<close> module. A function returns a pair: the
  value it returns, or the exception that leaves it (\<open>Inl\<close>), and the world afterwards.
\<close>

datatype pyexn =
    Gaierror
  | CalledProcessError
  | FileNotFoundError
  | ValueError
  | OverflowError
  | SystemExit nat
  | OtherException string

text \<open>
  One constructor per \<^verbatim>\<open>print\<close> statement of the source, with the values the
  f-string interpolates. The colour codes of \<^verbatim>\<open>Colors\<close> are part of the text of a line
  and carry no information of their own. \<open>ScanCompleted\<close> is the line with the elapsed
  wall-clock time, which is not modelled.
\<close>

datatype msg =
    Banner
  | Pinging string
  | HostReachable
  | PingOutput string
  | HostUnreachable
  | PingNotFound
  | CannotResolveScan string
  | StartingScan string string
  | PortOpen int
  | PortClosed int
  | ScanCompleted
  | SummaryOpenPorts "int list"
  | SummaryNoOpenPorts
  | CannotResolveTraceroute string
  | PerformingTraceroute string string
  | TracerouteNotFound string
  | Resolving string
  | Resolved string string
  | CouldNotResolve string

text \<open>
  The effects. \<open>SocketNew t\<close> is \<^verbatim>\<open>socket.socket(AF_INET, SOCK_STREAM)\<close>; the new
  socket takes its timeout \<open>t\<close> from the module's default at that moment (\<open>None\<close>:
  a blocking socket without deadline). \<open>ConnectEx ip port t r\<close> is
  \<^verbatim>\<open>sock.connect_ex((ip, port))\<close> on a socket whose timeout is \<open>t\<close>, with what the
  call gave: an error code, or an exception.
\<close>

datatype event =
    Print msg
  | PrintHelpStderr
  | StdoutWrite string
  | GetHostByName string
  | CheckOutput "string list"
  | Popen "string list"
  | ProcessWait
  | SocketNew "nat option"
  | SetDefaultTimeout nat
  | ConnectEx string int "nat option" "pyexn + int"
  | SocketClose

record world =
  trace :: "event list"
  defaulttimeout :: "nat option"

definition init_world :: world where
  "init_world = \<lparr>trace = [], defaulttimeout = None\<rparr>"

definition emit :: "event \<Rightarrow> world \<Rightarrow> world" where
  "emit e w = w\<lparr>trace := trace w @ [e]\<rparr>"

text \<open>The namespace \<^verbatim>\<open>argparse\<close> returns: \<^verbatim>\<open>args.host\<close>, \<^verbatim>\<open>args.ping\<close>,
  \<^verbatim>\<open>args.scan\<close> (\<open>None\<close> when \<^verbatim>\<open>-s\<close> is absent), \<^verbatim>\<open>args.traceroute\<close>,
  \<^verbatim>\<open>args.all\<close>.\<close>

record args =
  arg_host :: string
  arg_ping :: bool
  arg_scan :: "string option"
  arg_traceroute :: bool
  arg_all :: bool

text \<open>
  The outside world, as the library calls the program makes. Each answer may depend on the
  moment of the call (the number of effects performed before it), so the same question can
  be answered differently the second time: a name that resolved for \<^verbatim>\<open>main\<close> may fail
  for \<^verbatim>\<open>scan_ports\<close>, a port probed twice may answer twice differently.
  \<^item> \<open>windows\<close>: \<^verbatim>\<open>platform.system().lower() == 'windows'\<close>;
  \<^item> \<open>gethostbyname\<close>: \<^verbatim>\<open>socket.gethostbyname\<close>, an IPv4 address in dotted
    notation or an exception;
  \<^item> \<open>check_output\<close>: \<^verbatim>\<open>subprocess.check_output(command, ...)\<close>, the captured
    output or an exception;
  \<^item> \<open>popen\<close>: \<^verbatim>\<open>subprocess.Popen([command, host], ...)\<close>, the lines the process
    writes until it exits, or an exception;
  \<^item> \<open>connect\<close>: the error indicator of the C-level \<^verbatim>\<open>connect()\<close> for an address, a
    port in range and the timeout of the socket (0: connected);
  \<^item> \<open>parse_args\<close>: \<^verbatim>\<open>parser.parse_args()\<close> on \<^verbatim>\<open>sys.argv\<close>; argparse leaves
    through \<^verbatim>\<open>SystemExit\<close> by itself on a usage error (2) and on \<^verbatim>\<open>-h\<close> (0);
  \<^item> \<open>flush_stdio\<close>: whether the interpreter, when it shuts down, can flush what the
    program wrote to standard output and standard error.
  Writing to the two streams, creating a socket and closing it are taken to succeed.
\<close>

record env =
  windows :: bool
  gethostbyname :: "nat \<Rightarrow> string \<Rightarrow> pyexn + string"
  check_output :: "nat \<Rightarrow> string list \<Rightarrow> pyexn + string"
  popen :: "nat \<Rightarrow> string list \<Rightarrow> pyexn + string list"
  connect :: "nat \<Rightarrow> string \<Rightarrow> int \<Rightarrow> nat option \<Rightarrow> int"
  parse_args :: "string list \<Rightarrow> pyexn + args"
  flush_stdio :: bool

section \<open>Python's \<^verbatim>\<open>str.split(',')\<close> and \<^verbatim>\<open>int(str)\<close>\<close>

text \<open>
  \<^verbatim>\<open>ports.split(',')\<close> cuts at every comma and keeps empty pieces: the empty string
  gives one empty piece.
\<close>

fun split_acc :: "string \<Rightarrow> string \<Rightarrow> string list" where
  "split_acc cur [] = [rev cur]"
| "split_acc cur (c # cs) =
     (if c = CHR '','' then rev cur # split_acc [] cs else split_acc (c # cur) cs)"

definition split_comma :: "string \<Rightarrow> string list" where
  "split_comma s = split_acc [] s"

text \<open>
  \<^verbatim>\<open>int(p)\<close> in base 10 on a string of code points below 256: white space around, one
  optional sign, then decimal digits, single underscores allowed between digits; anything
  else raises \<^verbatim>\<open>ValueError\<close>, and so do more than 4300 digits (the default limit of the
  conversion since Python 3.11). The white space \<^verbatim>\<open>int\<close> strips is tab, line feed,
  vertical tab, form feed, carriage return and space, and of the code points from 128 on
  the two that are white space, 133 and 160. The separators 28 to 31 are not stripped:
  on a string that begins with one of them \<^verbatim>\<open>int\<close> raises \<^verbatim>\<open>ValueError\<close>.
\<close>

definition is_space :: "char \<Rightarrow> bool" where
  "is_space c = (let n = (of_char c :: nat) in
     (9 \<le> n \<and> n \<le> 13) \<or> n = 32 \<or> n = 133 \<or> n = 160)"

definition is_digit :: "char \<Rightarrow> bool" where
  "is_digit c = (let n = (of_char c :: nat) in 48 \<le> n \<and> n \<le> 57)"

definition digit_val :: "char \<Rightarrow> int" where
  "digit_val c = int (of_char c) - 48"

fun double_underscore :: "string \<Rightarrow> bool" where
  "double_underscore (a # b # cs) =
     ((a = CHR ''_'' \<and> b = CHR ''_'') \<or> double_underscore (b # cs))"
| "double_underscore cs = False"

definition max_str_digits :: nat where
  "max_str_digits = 4300"

definition digits_value :: "string \<Rightarrow> int" where
  "digits_value ds = foldl (\<lambda>acc c. 10 * acc + digit_val c) 0 ds"

definition py_int :: "string \<Rightarrow> pyexn + int" where
  "py_int s =
     (let s1 = dropWhile is_space s;
          neg = (s1 \<noteq> [] \<and> hd s1 = CHR ''-'');
          s2 = (if s1 \<noteq> [] \<and> (hd s1 = CHR ''+'' \<or> hd s1 = CHR ''-'') then tl s1 else s1);
          body = takeWhile (\<lambda>c. is_digit c \<or> c = CHR ''_'') s2;
          rest = dropWhile (\<lambda>c. is_digit c \<or> c = CHR ''_'') s2;
          ds = filter is_digit body
      in if body = [] \<or> hd body = CHR ''_'' \<or> last body = CHR ''_'' \<or> double_underscore body
            \<or> \<not> list_all is_space rest \<or> max_str_digits < length ds
         then Inl ValueError
         else Inr (if neg then - digits_value ds else digits_value ds))"

text \<open>The list comprehension \<^verbatim>\<open>[int(p) for p in ports.split(',')]\<close>: pieces are
  converted from left to right and the first failure leaves the comprehension.\<close>

fun parse_ports :: "string list \<Rightarrow> pyexn + int list" where
  "parse_ports [] = Inr []"
| "parse_ports (p # ps) =
     (case py_int p of
        Inl e \<Rightarrow> Inl e
      | Inr n \<Rightarrow> (case parse_ports ps of Inl e \<Rightarrow> Inl e | Inr ns \<Rightarrow> Inr (n # ns)))"

section \<open>The functions of the program\<close>

text \<open>\<^verbatim>\<open>resolve_host\<close>: the address, or \<open>None\<close> when the lookup raised
  \<^verbatim>\<open>socket.gaierror\<close>; any other exception is not caught.\<close>

definition resolve_host :: "env \<Rightarrow> string \<Rightarrow> world \<Rightarrow> (pyexn + string option) \<times> world" where
  "resolve_host env hostname w =
     (let w1 = emit (GetHostByName hostname) w in
      case gethostbyname env (length (trace w)) hostname of
        Inr ip_address \<Rightarrow> (Inr (Some ip_address), w1)
      | Inl e \<Rightarrow> if e = Gaierror then (Inr None, w1) else (Inl e, w1))"

text \<open>Python's truth value of what \<^verbatim>\<open>resolve_host\<close> returns, and of \<^verbatim>\<open>args.scan\<close>:
  \<^verbatim>\<open>None\<close> and the empty string are false.\<close>

definition truthy :: "string option \<Rightarrow> bool" where
  "truthy v = (case v of None \<Rightarrow> False | Some s \<Rightarrow> s \<noteq> [])"

definition ping_host :: "env \<Rightarrow> string \<Rightarrow> world \<Rightarrow> (pyexn + unit) \<times> world" where
  "ping_host env host w =
     (let w1 = emit (Print (Pinging host)) w;
          param = (if windows env then ''-n'' else ''-c'');
          command = [''ping'', param, ''1'', host];
          w2 = emit (CheckOutput command) w1
      in case check_output env (length (trace w1)) command of
           Inr output \<Rightarrow>
             (Inr (), emit (Print (PingOutput output)) (emit (Print HostReachable) w2))
         | Inl e \<Rightarrow>
             if e = CalledProcessError then (Inr (), emit (Print HostUnreachable) w2)
             else if e = FileNotFoundError then (Inr (), emit (Print PingNotFound) w2)
             else (Inl e, w2))"

text \<open>
  \<^verbatim>\<open>sock.connect_ex((ip_address, port))\<close>: CPython checks the port while it builds the
  socket address and raises \<^verbatim>\<open>OverflowError\<close> outside 0..65535; otherwise the call
  returns the error indicator of \<^verbatim>\<open>connect()\<close>.
\<close>

definition connect_ex :: "env \<Rightarrow> string \<Rightarrow> int \<Rightarrow> nat option \<Rightarrow> world \<Rightarrow> (pyexn + int) \<times> world" where
  "connect_ex env ip_address port tmo w =
     (let r = (if port < 0 \<or> 65535 < port then Inl OverflowError
               else Inr (connect env (length (trace w)) ip_address port tmo))
      in (r, emit (ConnectEx ip_address port tmo r) w))"

text \<open>
  The body of \<^verbatim>\<open>for port in port_list\<close>, with the list \<^verbatim>\<open>open_ports\<close> carried
  along. The socket is created first and \<^verbatim>\<open>socket.setdefaulttimeout(1)\<close> is called
  after it, as in the source.
\<close>

fun scan_loop :: "env \<Rightarrow> string \<Rightarrow> int list \<Rightarrow> int list \<Rightarrow> world \<Rightarrow> (pyexn + int list) \<times> world" where
  "scan_loop env ip_address [] open_ports w = (Inr open_ports, w)"
| "scan_loop env ip_address (port # rest) open_ports w =
     (let tmo = defaulttimeout w;
          w1 = emit (SocketNew tmo) w;
          w2 = (emit (SetDefaultTimeout 1) w1)\<lparr>defaulttimeout := Some 1\<rparr>
      in case connect_ex env ip_address port tmo w2 of
           (Inl e, w3) \<Rightarrow> (Inl e, w3)
         | (Inr result, w3) \<Rightarrow>
             if result = 0
             then scan_loop env ip_address rest (open_ports @ [port])
                    (emit SocketClose (emit (Print (PortOpen port)) w3))
             else scan_loop env ip_address rest open_ports
                    (emit SocketClose (emit (Print (PortClosed port)) w3)))"

definition scan_ports :: "env \<Rightarrow> string \<Rightarrow> string \<Rightarrow> world \<Rightarrow> (pyexn + unit) \<times> world" where
  "scan_ports env host ports w =
     (case resolve_host env host w of
        (Inl e, w1) \<Rightarrow> (Inl e, w1)
      | (Inr ip, w1) \<Rightarrow>
          if \<not> truthy ip then (Inr (), emit (Print (CannotResolveScan host)) w1)
          else
            (let ip_address = the ip;
                 w2 = emit (Print (StartingScan host ip_address)) w1
             in case parse_ports (split_comma ports) of
                  Inl e \<Rightarrow> (Inl e, w2)
                | Inr port_list \<Rightarrow>
                    (case scan_loop env ip_address port_list [] w2 of
                       (Inl e, w3) \<Rightarrow> (Inl e, w3)
                     | (Inr open_ports, w3) \<Rightarrow>
                         (let w4 = emit (Print ScanCompleted) w3
                          in if open_ports \<noteq> []
                             then (Inr (), emit (Print (SummaryOpenPorts open_ports)) w4)
                             else (Inr (), emit (Print SummaryNoOpenPorts) w4)))))"

definition traceroute :: "env \<Rightarrow> string \<Rightarrow> world \<Rightarrow> (pyexn + unit) \<times> world" where
  "traceroute env host w =
     (case resolve_host env host w of
        (Inl e, w1) \<Rightarrow> (Inl e, w1)
      | (Inr ip, w1) \<Rightarrow>
          if \<not> truthy ip then (Inr (), emit (Print (CannotResolveTraceroute host)) w1)
          else
            (let w2 = emit (Print (PerformingTraceroute host (the ip))) w1;
                 command = (if windows env then ''tracert'' else ''traceroute'');
                 w3 = emit (Popen [command, host]) w2
             in case popen env (length (trace w2)) [command, host] of
                  Inr lines \<Rightarrow>
                    (Inr (), emit ProcessWait (fold (\<lambda>line. emit (StdoutWrite line)) lines w3))
                | Inl e \<Rightarrow>
                    if e = FileNotFoundError
                    then (Inr (), emit (Print (TracerouteNotFound command)) w3)
                    else (Inl e, w3)))"

text \<open>Sequencing of two statements: an exception of the first skips the second.\<close>

definition then_do ::
  "(pyexn + unit) \<times> world \<Rightarrow> (world \<Rightarrow> (pyexn + unit) \<times> world) \<Rightarrow> (pyexn + unit) \<times> world" where
  "then_do r f = (case r of (Inl e, w) \<Rightarrow> (Inl e, w) | (Inr u, w) \<Rightarrow> f w)"

definition common_ports :: string where
  "common_ports = ''21,22,80,443,3306,8000,8080''"

text \<open>The last block of \<^verbatim>\<open>main\<close>, \<^verbatim>\<open>if args.all: ... else: ...\<close>, on the parsed
  arguments.\<close>

definition main_dispatch :: "env \<Rightarrow> args \<Rightarrow> world \<Rightarrow> (pyexn + unit) \<times> world" where
  "main_dispatch env a w =
     (let target_host = arg_host a in
      if arg_all a then
        then_do (then_do (ping_host env target_host w)
                   (scan_ports env target_host common_ports))
          (traceroute env target_host)
      else
        then_do (then_do
            (if arg_ping a then ping_host env target_host w else (Inr (), w))
            (\<lambda>w. if truthy (arg_scan a) then scan_ports env target_host (the (arg_scan a)) w
                 else (Inr (), w)))
          (\<lambda>w. if arg_traceroute a then traceroute env target_host w else (Inr (), w)))"

definition main :: "env \<Rightarrow> string list \<Rightarrow> world \<Rightarrow> (pyexn + unit) \<times> world" where
  "main env argv w =
     (let w1 = emit (Print Banner) w in
      if length argv = 1 then (Inl (SystemExit 1), emit PrintHelpStderr w1)
      else
        (case parse_args env argv of
           Inl e \<Rightarrow> (Inl e, w1)
         | Inr a \<Rightarrow>
             (let target_host = arg_host a;
                  w2 = emit (Print (Resolving target_host)) w1
              in case resolve_host env target_host w2 of
                   (Inl e, w3) \<Rightarrow> (Inl e, w3)
                 | (Inr ip, w3) \<Rightarrow>
                     main_dispatch env a
                       (if truthy ip then emit (Print (Resolved target_host (the ip))) w3
                        else emit (Print (CouldNotResolve target_host)) w3))))"

text \<open>The exit status of the process: 0 when \<^verbatim>\<open>main\<close> returns, the code of
  \<^verbatim>\<open>sys.exit\<close>, and 1 after the traceback of any other exception; but 120, whatever
  happened before, when the interpreter cannot flush the standard streams as it shuts
  down.\<close>

definition exit_code :: "env \<Rightarrow> (pyexn + unit) \<times> world \<Rightarrow> nat" where
  "exit_code env r =
     (if \<not> flush_stdio env then 120
      else case fst r of Inr u \<Rightarrow> 0 | Inl (SystemExit n) \<Rightarrow> n | Inl e \<Rightarrow> 1)"

section \<open>What a trace shows\<close>

text \<open>The status of a probe as the specification names it. The program prints two of the
  four: \<open>Open\<close> and \<open>Closed\<close>.\<close>

datatype status = Open | Closed | FilteredTimeout | Error

text \<open>The per-port report lines of a trace, in the order they were printed.\<close>

fun result_of :: "event \<Rightarrow> (int \<times> status) list" where
  "result_of (Print (PortOpen port)) = [(port, Open)]"
| "result_of (Print (PortClosed port)) = [(port, Closed)]"
| "result_of e = []"

definition port_results :: "event list \<Rightarrow> (int \<times> status) list" where
  "port_results t = concat (map result_of t)"

definition result_ports :: "event list \<Rightarrow> int list" where
  "result_ports t = map fst (port_results t)"

text \<open>The probes of a trace that returned an error indicator, with the port, the timeout
  of the socket and the indicator; and the ports of all connect attempts.\<close>

fun outcome_of :: "event \<Rightarrow> (int \<times> nat option \<times> int) list" where
  "outcome_of (ConnectEx ip port tmo (Inr result)) = [(port, tmo, result)]"
| "outcome_of e = []"

definition probe_outcomes :: "event list \<Rightarrow> (int \<times> nat option \<times> int) list" where
  "probe_outcomes t = concat (map outcome_of t)"

fun probe_of :: "event \<Rightarrow> int list" where
  "probe_of (ConnectEx ip port tmo r) = [port]"
| "probe_of e = []"

definition probed_ports :: "event list \<Rightarrow> int list" where
  "probed_ports t = concat (map probe_of t)"

fun timeout_of :: "event \<Rightarrow> nat option list" where
  "timeout_of (ConnectEx ip port tmo r) = [tmo]"
| "timeout_of e = []"

definition connect_timeouts :: "event list \<Rightarrow> nat option list" where
  "connect_timeouts t = concat (map timeout_of t)"

text \<open>The summaries of a trace: the ports of a \<^verbatim>\<open>Summary: Open ports found\<close> line, the
  empty list for \<^verbatim>\<open>Summary: No open ports found\<close>.\<close>

fun summary_of :: "event \<Rightarrow> int list list" where
  "summary_of (Print (SummaryOpenPorts ps)) = [ps]"
| "summary_of (Print SummaryNoOpenPorts) = [[]]"
| "summary_of e = []"

definition summaries :: "event list \<Rightarrow> int list list" where
  "summaries t = concat (map summary_of t)"

text \<open>The calls of \<^verbatim>\<open>socket.gethostbyname\<close> in a trace.\<close>

fun resolution_of :: "event \<Rightarrow> string list" where
  "resolution_of (GetHostByName h) = [h]"
| "resolution_of e = []"

definition resolutions :: "event list \<Rightarrow> string list" where
  "resolutions t = concat (map resolution_of t)"

text \<open>
  Sockets: \<open>open_sockets t\<close> is the number of sockets created and not yet closed after
  the trace \<open>t\<close>, and \<open>socket_peak cur t\<close> the highest number of sockets open at any
  moment of \<open>t\<close>, starting with \<open>cur\<close> open ones. A connect attempt is outstanding only
  inside \<^verbatim>\<open>connect_ex\<close>, on a socket that is open.
\<close>

fun socket_delta :: "event \<Rightarrow> int" where
  "socket_delta (SocketNew tmo) = 1"
| "socket_delta SocketClose = - 1"
| "socket_delta e = 0"

definition open_sockets :: "event list \<Rightarrow> int" where
  "open_sockets t = sum_list (map socket_delta t)"

fun socket_peak :: "int \<Rightarrow> event list \<Rightarrow> int" where
  "socket_peak cur [] = cur"
| "socket_peak cur (e # es) = max cur (socket_peak (cur + socket_delta e) es)"

text \<open>The two-way classification the source makes of the value of \<^verbatim>\<open>connect_ex\<close>
  (\<^verbatim>\<open>if result == 0: ... Open ... else: ... Closed\<close>).\<close>

definition printed_status :: "int \<Rightarrow> status" where
  "printed_status result = (if result = 0 then Open else Closed)"

text \<open>
  The four-way classification, following the specification's words, on the error indicators
  of Linux: 0 is a completed handshake; \<open>ECONNREFUSED\<close> an active refusal;
  \<open>EAGAIN\<close> (what \<^verbatim>\<open>connect_ex\<close> gives when the timeout of the socket expires) and
  \<open>ETIMEDOUT\<close> (the kernel gave up) a deadline exceeded with no response; everything
  else another transport error.
\<close>

definition EAGAIN :: int where "EAGAIN = 11"
definition ENETUNREACH :: int where "ENETUNREACH = 101"
definition ETIMEDOUT :: int where "ETIMEDOUT = 110"
definition ECONNREFUSED :: int where "ECONNREFUSED = 111"

definition spec_status :: "int \<Rightarrow> status" where
  "spec_status result =
     (if result = 0 then Open
      else if result = ECONNREFUSED then Closed
      else if result = EAGAIN \<or> result = ETIMEDOUT then FilteredTimeout
      else Error)"

section \<open>Conditions on the input and on the outside world\<close>

text \<open>A port string all of whose pieces convert, to numbers a socket address accepts.\<close>

definition well_formed_ports :: "string \<Rightarrow> bool" where
  "well_formed_ports ports =
     (case parse_ports (split_comma ports) of
        Inl e \<Rightarrow> False
      | Inr port_list \<Rightarrow> list_all (\<lambda>port. 0 \<le> port \<and> port \<le> 65535) port_list)"

text \<open>An outside world whose library calls fail only in the ways the program has a handler
  for: \<^verbatim>\<open>gaierror\<close> from the lookup, \<^verbatim>\<open>CalledProcessError\<close> and
  \<^verbatim>\<open>FileNotFoundError\<close> from \<^verbatim>\<open>check_output\<close>, \<^verbatim>\<open>FileNotFoundError\<close> from
  \<^verbatim>\<open>Popen\<close>.\<close>

definition handled_failures :: "env \<Rightarrow> bool" where
  "handled_failures env =
     ((\<forall>c h e. gethostbyname env c h = Inl e \<longrightarrow> e = Gaierror) \<and>
      (\<forall>c cmd e. check_output env c cmd = Inl e \<longrightarrow> e = CalledProcessError \<or> e = FileNotFoundError) \<and>
      (\<forall>c cmd e. popen env c cmd = Inl e \<longrightarrow> e = FileNotFoundError))"

section \<open>Concrete worlds\<close>

text \<open>
  A host that resolves to 10.0.0.1, where port 80 accepts, port 443 refuses and every other
  port drops the packets: the attempt ends with \<open>EAGAIN\<close> on a socket with a timeout
  and with \<open>ETIMEDOUT\<close> on one without. \<^verbatim>\<open>ping\<close> fails, \<^verbatim>\<open>traceroute\<close> is not
  installed. The command line is parsed as argparse parses the few given here, and the
  standard streams can be flushed.
\<close>

definition lab_args :: "string list \<Rightarrow> pyexn + args" where
  "lab_args argv =
     (if argv = [''net_diag_tool.py'', ''lab'', ''-s'', ''81,82'']
      then Inr \<lparr>arg_host = ''lab'', arg_ping = False, arg_scan = Some ''81,82'',
                arg_traceroute = False, arg_all = False\<rparr>
      else if argv = [''net_diag_tool.py'', ''lab'', ''-s'', ''http'']
      then Inr \<lparr>arg_host = ''lab'', arg_ping = False, arg_scan = Some ''http'',
                arg_traceroute = False, arg_all = False\<rparr>
      else if argv = [''net_diag_tool.py'', ''lab'', ''-s'', ''80'']
      then Inr \<lparr>arg_host = ''lab'', arg_ping = False, arg_scan = Some ''80'',
                arg_traceroute = False, arg_all = False\<rparr>
      else if argv = [''net_diag_tool.py'', ''lab'', ''-p'', ''-s'', ''80,x'', ''-t'']
      then Inr \<lparr>arg_host = ''lab'', arg_ping = True, arg_scan = Some ''80,x'',
                arg_traceroute = True, arg_all = False\<rparr>
      else if argv = [''net_diag_tool.py'', ''lab'', ''-p'', ''-s'', ''80,443'', ''-t'']
      then Inr \<lparr>arg_host = ''lab'', arg_ping = True, arg_scan = Some ''80,443'',
                arg_traceroute = True, arg_all = False\<rparr>
      else if argv = [''net_diag_tool.py'', ''-h''] then Inl (SystemExit 0)
      else Inl (SystemExit 2))"

definition lab :: env where
  "lab = \<lparr>windows = False,
          gethostbyname = (\<lambda>c h. Inr ''10.0.0.1''),
          check_output = (\<lambda>c command. Inl CalledProcessError),
          popen = (\<lambda>c command. Inl FileNotFoundError),
          connect = (\<lambda>c ip port tmo.
             if port = 80 then 0
             else if port = 443 then ECONNREFUSED
             else (case tmo of None \<Rightarrow> ETIMEDOUT | Some t \<Rightarrow> EAGAIN)),
          parse_args = lab_args,
          flush_stdio = True\<rparr>"

text \<open>The same world with a name service that knows no host.\<close>

definition lab_no_dns :: env where
  "lab_no_dns = lab\<lparr>gethostbyname := (\<lambda>c h. Inl Gaierror)\<rparr>"

text \<open>The distinct elements of a list in the order of their first appearance.\<close>

definition first_appearance :: "int list \<Rightarrow> int list" where
  "first_appearance ps = rev (remdups (rev ps))"

text \<open>The effects that touch no socket and print no result line of a scan: everything
  \<^verbatim>\<open>main\<close>, \<^verbatim>\<open>resolve_host\<close>, \<^verbatim>\<open>ping_host\<close> and \<^verbatim>\<open>traceroute\<close> do
  themselves.\<close>

definition quiet :: "event \<Rightarrow> bool" where
  "quiet e = (result_of e = [] \<and> outcome_of e = [] \<and> probe_of e = [] \<and> timeout_of e = []
     \<and> socket_delta e = 0)"

text \<open>A trace in which every probe that returned is reported, in the same order, with the
  status the source prints for its error indicator.\<close>

definition classified :: "event list \<Rightarrow> bool" where
  "classified t =
     (port_results t = map (\<lambda>(port, tmo, result). (port, printed_status result)) (probe_outcomes t))"




text \<open>The socket effects of a trace, in their order.\<close>

fun socket_event_of :: "event \<Rightarrow> event list" where
  "socket_event_of (SocketNew tmo) = [SocketNew tmo]"
| "socket_event_of SocketClose = [SocketClose]"
| "socket_event_of e = []"

definition socket_events :: "event list \<Rightarrow> event list" where
  "socket_events t = concat (map socket_event_of t)"


section \<open>Traces grow at the end\<close>

lemma trace_emit [simp]: "trace (emit e w) = trace w @ [e]"
  by (simp add: emit_def)

lemma defaulttimeout_emit [simp]: "defaulttimeout (emit e w) = defaulttimeout w"
  by (simp add: emit_def)

lemma port_results_append [simp]: "port_results (s @ t) = port_results s @ port_results t"
  by (simp add: port_results_def)

lemma port_results_Nil [simp]: "port_results [] = []"
  by (simp add: port_results_def)

lemma port_results_Cons [simp]: "port_results (e # t) = result_of e @ port_results t"
  by (simp add: port_results_def)

lemma probe_outcomes_append [simp]:
  "probe_outcomes (s @ t) = probe_outcomes s @ probe_outcomes t"
  by (simp add: probe_outcomes_def)

lemma probe_outcomes_Nil [simp]: "probe_outcomes [] = []"
  by (simp add: probe_outcomes_def)

lemma probe_outcomes_Cons [simp]: "probe_outcomes (e # t) = outcome_of e @ probe_outcomes t"
  by (simp add: probe_outcomes_def)

lemma probed_ports_append [simp]: "probed_ports (s @ t) = probed_ports s @ probed_ports t"
  by (simp add: probed_ports_def)

lemma probed_ports_Nil [simp]: "probed_ports [] = []"
  by (simp add: probed_ports_def)

lemma probed_ports_Cons [simp]: "probed_ports (e # t) = probe_of e @ probed_ports t"
  by (simp add: probed_ports_def)

lemma summaries_append [simp]: "summaries (s @ t) = summaries s @ summaries t"
  by (simp add: summaries_def)

lemma summaries_Nil [simp]: "summaries [] = []"
  by (simp add: summaries_def)

lemma summaries_Cons [simp]: "summaries (e # t) = summary_of e @ summaries t"
  by (simp add: summaries_def)

lemma resolutions_append [simp]: "resolutions (s @ t) = resolutions s @ resolutions t"
  by (simp add: resolutions_def)

lemma resolutions_Nil [simp]: "resolutions [] = []"
  by (simp add: resolutions_def)

lemma resolutions_Cons [simp]: "resolutions (e # t) = resolution_of e @ resolutions t"
  by (simp add: resolutions_def)

lemma open_sockets_append [simp]: "open_sockets (s @ t) = open_sockets s + open_sockets t"
  by (simp add: open_sockets_def)

lemma open_sockets_Nil [simp]: "open_sockets [] = 0"
  by (simp add: open_sockets_def)

lemma open_sockets_Cons [simp]: "open_sockets (e # t) = socket_delta e + open_sockets t"
  by (simp add: open_sockets_def)

lemma socket_peak_ge: "cur \<le> socket_peak cur t"
  by (induction t arbitrary: cur) auto

lemma socket_peak_final: "cur + open_sockets t \<le> socket_peak cur t"
proof (induction t arbitrary: cur)
  case Nil
  show ?case by (simp add: open_sockets_def)
next
  case (Cons e t)
  have "cur + socket_delta e + open_sockets t \<le> socket_peak (cur + socket_delta e) t"
    by (rule Cons.IH)
  then show ?case by (simp add: open_sockets_def)
qed

lemma socket_peak_append:
  "socket_peak cur (s @ t) = max (socket_peak cur s) (socket_peak (cur + open_sockets s) t)"
proof (induction s arbitrary: cur)
  case Nil
  show ?case using socket_peak_ge [of cur t] by (simp add: open_sockets_def)
next
  case (Cons e s)
  show ?case by (simp add: Cons.IH open_sockets_def add.assoc max.assoc)
qed

lemma socket_peak_snoc:
  "socket_peak cur (t @ [e]) = max (socket_peak cur t) (cur + open_sockets t + socket_delta e)"
  using socket_peak_final [of cur t] by (simp add: socket_peak_append)

section \<open>The scan loop\<close>

text \<open>With every port in the range of a socket address the loop reaches its end: it probes
  the ports of the list one after the other and prints one line for each.\<close>

lemma scan_loop_complete:
  "list_all (\<lambda>port. 0 \<le> port \<and> port \<le> 65535) ps \<Longrightarrow>
   \<exists>rs w'. scan_loop env ip ps opens w = (Inr (opens @ map fst (filter (\<lambda>x. snd x = Open) rs)), w')
     \<and> map fst rs = ps
     \<and> port_results (trace w') = port_results (trace w) @ rs
     \<and> probed_ports (trace w') = probed_ports (trace w) @ ps
     \<and> summaries (trace w') = summaries (trace w)
     \<and> resolutions (trace w') = resolutions (trace w)"
proof (induction ps arbitrary: opens w)
  case Nil
  show ?case by simp
next
  case (Cons p ps)
  then have rng: "\<not> (p < 0 \<or> 65535 < p)"
    and rest: "list_all (\<lambda>port. 0 \<le> port \<and> port \<le> 65535) ps"
    by auto
  let ?w2 = "(emit (SetDefaultTimeout 1) (emit (SocketNew (defaulttimeout w)) w))
               \<lparr>defaulttimeout := Some 1\<rparr>"
  let ?c = "connect env (length (trace ?w2)) ip p (defaulttimeout w)"
  let ?w3 = "emit (ConnectEx ip p (defaulttimeout w) (Inr ?c)) ?w2"
  show ?case
  proof (cases "?c = 0")
    case True
    let ?w4 = "emit SocketClose (emit (Print (PortOpen p)) ?w3)"
    from Cons.IH [OF rest, of "opens @ [p]" ?w4] obtain rs w' where
      h: "scan_loop env ip ps (opens @ [p]) ?w4
            = (Inr ((opens @ [p]) @ map fst (filter (\<lambda>x. snd x = Open) rs)), w')"
        "map fst rs = ps"
        "port_results (trace w') = port_results (trace ?w4) @ rs"
        "probed_ports (trace w') = probed_ports (trace ?w4) @ ps"
        "summaries (trace w') = summaries (trace ?w4)"
        "resolutions (trace w') = resolutions (trace ?w4)"
      by blast
    have eq: "scan_loop env ip (p # ps) opens w = scan_loop env ip ps (opens @ [p]) ?w4"
      using True rng by (simp add: connect_ex_def Let_def)
    show ?thesis
      apply (rule exI [of _ "(p, Open) # rs"])
      apply (rule exI [of _ w'])
      apply (simp only: eq)
      using h by simp
  next
    case False
    let ?w4 = "emit SocketClose (emit (Print (PortClosed p)) ?w3)"
    from Cons.IH [OF rest, of opens ?w4] obtain rs w' where
      h: "scan_loop env ip ps opens ?w4
            = (Inr (opens @ map fst (filter (\<lambda>x. snd x = Open) rs)), w')"
        "map fst rs = ps"
        "port_results (trace w') = port_results (trace ?w4) @ rs"
        "probed_ports (trace w') = probed_ports (trace ?w4) @ ps"
        "summaries (trace w') = summaries (trace ?w4)"
        "resolutions (trace w') = resolutions (trace ?w4)"
      by blast
    have eq: "scan_loop env ip (p # ps) opens w = scan_loop env ip ps opens ?w4"
      using False rng by (simp add: connect_ex_def Let_def)
    show ?thesis
      apply (rule exI [of _ "(p, Closed) # rs"])
      apply (rule exI [of _ w'])
      apply (simp only: eq)
      using h by simp
  qed
qed

section \<open>A scan that runs to its end\<close>

lemma scan_ports_complete:
  assumes res: "gethostbyname env (length (trace w)) host = Inr ip" and ne: "ip \<noteq> []"
    and parse: "parse_ports (split_comma ports) = Inr port_list"
    and rng: "list_all (\<lambda>port. 0 \<le> port \<and> port \<le> 65535) port_list"
  shows "\<exists>rs w'. scan_ports env host ports w = (Inr (), w')
     \<and> map fst rs = port_list
     \<and> port_results (trace w') = port_results (trace w) @ rs
     \<and> probed_ports (trace w') = probed_ports (trace w) @ port_list
     \<and> summaries (trace w') = summaries (trace w) @ [map fst (filter (\<lambda>x. snd x = Open) rs)]"
proof -
  let ?w2 = "emit (Print (StartingScan host ip)) (emit (GetHostByName host) w)"
  from scan_loop_complete [OF rng, of env ip "[]" ?w2] obtain rs w3 where
    h: "scan_loop env ip port_list [] ?w2
          = (Inr ([] @ map fst (filter (\<lambda>x. snd x = Open) rs)), w3)"
      "map fst rs = port_list"
      "port_results (trace w3) = port_results (trace ?w2) @ rs"
      "probed_ports (trace w3) = probed_ports (trace ?w2) @ port_list"
      "summaries (trace w3) = summaries (trace ?w2)"
    by blast
  let ?opens = "map fst (filter (\<lambda>x. snd x = Open) rs)"
  let ?w' = "if ?opens \<noteq> []
             then emit (Print (SummaryOpenPorts ?opens)) (emit (Print ScanCompleted) w3)
             else emit (Print SummaryNoOpenPorts) (emit (Print ScanCompleted) w3)"
  have eq: "scan_ports env host ports w = (Inr (), ?w')"
    using res ne parse h(1) by (simp add: scan_ports_def resolve_host_def truthy_def Let_def)
  show ?thesis
    apply (rule exI [of _ rs])
    apply (rule exI [of _ ?w'])
    apply (simp only: eq)
    using h(2-5) by simp
qed

lemma parse_80_443_80: "parse_ports (split_comma ''80,443,80'') = Inr [80, 443, 80]"
  by code_simp

lemmas run_defs = scan_ports_def resolve_host_def init_world_def truthy_def connect_ex_def
  emit_def Let_def ping_host_def traceroute_def main_def main_dispatch_def then_do_def

section \<open>Duplicate ports\<close>

text \<open>
  Claim C2, as the code has it. The port list is not deduplicated: when the host resolves
  and every piece of the port string is a port number in 0..65535, \<^verbatim>\<open>scan_ports\<close>
  probes the pieces one by one in the order given, duplicates included, and prints exactly
  one result line per piece, so the number of results is the length of the list.
\<close>

theorem scan_ports_one_result_per_item:
  assumes "gethostbyname env (length (trace w)) host = Inr ip" and "ip \<noteq> []"
    and "parse_ports (split_comma ports) = Inr port_list"
    and "list_all (\<lambda>port. 0 \<le> port \<and> port \<le> 65535) port_list"
  shows "\<exists>w'. scan_ports env host ports w = (Inr (), w')
     \<and> probed_ports (trace w') = probed_ports (trace w) @ port_list
     \<and> result_ports (trace w') = result_ports (trace w) @ port_list
     \<and> length (port_results (trace w')) = length (port_results (trace w)) + length port_list"
proof -
  from scan_ports_complete [OF assms] obtain rs w' where
    h: "scan_ports env host ports w = (Inr (), w')" "map fst rs = port_list"
      "port_results (trace w') = port_results (trace w) @ rs"
      "probed_ports (trace w') = probed_ports (trace w) @ port_list"
    by blast
  have "length rs = length port_list"
    using h(2) by (metis length_map)
  then show ?thesis
    using h by (simp add: result_ports_def)
qed

theorem scan_ports_one_result_per_item_witness:
  "gethostbyname lab (length (trace init_world)) ''lab'' = Inr ''10.0.0.1''
   \<and> ''10.0.0.1'' \<noteq> []
   \<and> parse_ports (split_comma ''80,443,80'') = Inr [80, 443, 80]
   \<and> list_all (\<lambda>port. 0 \<le> port \<and> port \<le> 65535) [80, 443, 80 :: int]
   \<and> (\<exists>w'. scan_ports lab ''lab'' ''80,443,80'' init_world = (Inr (), w')
         \<and> probed_ports (trace w') = [80, 443, 80]
         \<and> result_ports (trace w') = [80, 443, 80]
         \<and> length (port_results (trace w')) = 3)"
proof -
  have a: "gethostbyname lab (length (trace init_world)) ''lab'' = Inr ''10.0.0.1''"
    by (simp add: lab_def)
  have b: "''10.0.0.1'' \<noteq> []" by simp
  have c: "list_all (\<lambda>port. 0 \<le> port \<and> port \<le> 65535) [80, 443, 80 :: int]" by simp
  show ?thesis
    using a c parse_80_443_80 scan_ports_one_result_per_item [OF a b parse_80_443_80 c]
    by (simp add: init_world_def result_ports_def numeral_3_eq_3)
qed

text \<open>The claim as stated fails on \<^verbatim>\<open>80,443,80\<close>: port 80 is probed twice, and there
  are three results for two distinct ports.\<close>

theorem duplicate_port_probed_twice:
  "\<not> distinct (probed_ports (trace (snd (scan_ports lab ''lab'' ''80,443,80'' init_world))))
   \<and> length (port_results (trace (snd (scan_ports lab ''lab'' ''80,443,80'' init_world))))
       \<noteq> length (remdups [80, 443, 80 :: int])"
  by (simp add: run_defs lab_def parse_80_443_80 ECONNREFUSED_def)

section \<open>The order of the report\<close>

lemma first_appearance_distinct: "distinct ps \<Longrightarrow> first_appearance ps = ps"
proof -
  assume "distinct ps"
  then have "distinct (rev ps)" by simp
  then have "remdups (rev ps) = rev ps" by (rule distinct_remdups_id)
  then show ?thesis
    unfolding first_appearance_def by (simp only: rev_rev_ident)
qed

text \<open>
  Claim C3, as the code has it. The result lines of a scan are the ports of the input list in
  the order of the list, one line for every item: a port that is listed more than once is
  reported at each of its positions, not only where it first appeared. The summary lists the
  ports reported open in the same order, repeated as often as they were reported. When no
  port is listed twice, this is the order in which the ports first appeared. The probes run
  one after the other, so there is no order of completion other than the order of the input.
\<close>

theorem scan_ports_report_in_input_order:
  assumes "gethostbyname env (length (trace w)) host = Inr ip" and "ip \<noteq> []"
    and "parse_ports (split_comma ports) = Inr port_list"
    and "list_all (\<lambda>port. 0 \<le> port \<and> port \<le> 65535) port_list"
  shows "\<exists>rs w'. scan_ports env host ports w = (Inr (), w')
     \<and> port_results (trace w') = port_results (trace w) @ rs
     \<and> map fst rs = port_list
     \<and> (distinct port_list \<longrightarrow> map fst rs = first_appearance port_list)
     \<and> summaries (trace w') = summaries (trace w) @ [map fst (filter (\<lambda>x. snd x = Open) rs)]"
proof -
  from scan_ports_complete [OF assms] obtain rs w' where
    h: "scan_ports env host ports w = (Inr (), w')" "map fst rs = port_list"
      "port_results (trace w') = port_results (trace w) @ rs"
      "summaries (trace w') = summaries (trace w) @ [map fst (filter (\<lambda>x. snd x = Open) rs)]"
    by blast
  show ?thesis
    apply (rule exI [of _ rs])
    apply (rule exI [of _ w'])
    using h by (simp add: first_appearance_distinct)
qed

lemma parse_80_443_list: "parse_ports (split_comma ''80,443'') = Inr [80, 443]"
  by code_simp

theorem scan_ports_report_in_input_order_witness:
  "gethostbyname lab (length (trace init_world)) ''lab'' = Inr ''10.0.0.1''
   \<and> ''10.0.0.1'' \<noteq> []
   \<and> parse_ports (split_comma ''80,443'') = Inr [80, 443]
   \<and> list_all (\<lambda>port. 0 \<le> port \<and> port \<le> 65535) [80, 443 :: int]
   \<and> distinct [80, 443 :: int]
   \<and> (\<exists>rs w'. scan_ports lab ''lab'' ''80,443'' init_world = (Inr (), w')
         \<and> port_results (trace w') = rs
         \<and> map fst rs = [80, 443]
         \<and> map fst rs = first_appearance [80, 443]
         \<and> summaries (trace w') = [map fst (filter (\<lambda>x. snd x = Open) rs)])"
proof -
  have a: "gethostbyname lab (length (trace init_world)) ''lab'' = Inr ''10.0.0.1''"
    by (simp add: lab_def)
  have b: "''10.0.0.1'' \<noteq> []" by simp
  have c: "list_all (\<lambda>port. 0 \<le> port \<and> port \<le> 65535) [80, 443 :: int]" by simp
  have d: "distinct [80, 443 :: int]" by simp
  show ?thesis
    using a c d parse_80_443_list scan_ports_report_in_input_order [OF a b parse_80_443_list c]
    by (auto simp: init_world_def)
qed

text \<open>The claim as stated fails on \<^verbatim>\<open>80,443,80\<close>, where port 80 accepts: the ports in
  the order of their first appearance are 80, 443; the report has the three lines 80, 443,
  80 and the summary names port 80 twice.\<close>

theorem report_repeats_duplicate_ports:
  "result_ports (trace (snd (scan_ports lab ''lab'' ''80,443,80'' init_world))) = [80, 443, 80]
   \<and> first_appearance [80, 443, 80] = [80, 443]
   \<and> summaries (trace (snd (scan_ports lab ''lab'' ''80,443,80'' init_world))) = [[80, 80]]"
  by (simp add: run_defs lab_def parse_80_443_80 ECONNREFUSED_def result_ports_def
      first_appearance_def)

section \<open>Effects outside the scan loop\<close>

lemma connect_timeouts_append [simp]:
  "connect_timeouts (s @ t) = connect_timeouts s @ connect_timeouts t"
  by (simp add: connect_timeouts_def)

lemma connect_timeouts_Nil [simp]: "connect_timeouts [] = []"
  by (simp add: connect_timeouts_def)

lemma connect_timeouts_Cons [simp]: "connect_timeouts (e # t) = timeout_of e @ connect_timeouts t"
  by (simp add: connect_timeouts_def)

lemma quiet_events:
  "list_all quiet es \<Longrightarrow>
     port_results es = [] \<and> probe_outcomes es = [] \<and> probed_ports es = []
     \<and> connect_timeouts es = [] \<and> open_sockets es = 0"
  by (induction es) (auto simp: quiet_def)

lemma quiet_peak: "list_all quiet es \<Longrightarrow> socket_peak cur es = cur"
  by (induction es arbitrary: cur) (auto simp: quiet_def)

lemma trace_write_lines:
  "trace (fold (\<lambda>line. emit (StdoutWrite line)) lines w) = trace w @ map StdoutWrite lines"
  by (induction lines arbitrary: w) auto

lemma resolve_host_quiet:
  "\<exists>es. trace (snd (resolve_host env h w)) = trace w @ es \<and> list_all quiet es"
  by (auto simp: resolve_host_def quiet_def Let_def split: sum.splits)

lemma ping_host_quiet:
  "\<exists>es. trace (snd (ping_host env h w)) = trace w @ es \<and> list_all quiet es"
  by (auto simp: ping_host_def quiet_def Let_def split: sum.splits)

lemma traceroute_quiet:
  "\<exists>es. trace (snd (traceroute env h w)) = trace w @ es \<and> list_all quiet es"
  by (auto simp: traceroute_def resolve_host_def quiet_def Let_def trace_write_lines list_all_iff
      split: sum.splits)

section \<open>Invariants of a run\<close>

text \<open>A property \<open>J\<close> of the trace, with a flag that says whether control goes on
  normally, holds after \<^verbatim>\<open>main\<close> as soon as the quiet effects keep it and the scan loop
  keeps it.\<close>

lemma quiet_steps_invariant:
  assumes step: "\<And>t e. I t \<Longrightarrow> quiet e \<Longrightarrow> I (t @ [e])"
  shows "I t \<Longrightarrow> list_all quiet es \<Longrightarrow> I (t @ es)"
proof (induction es arbitrary: t)
  case Nil
  then show ?case by simp
next
  case (Cons e es)
  from Cons.prems have "I (t @ [e])" and "list_all quiet es"
    by (auto intro: step)
  then have "I ((t @ [e]) @ es)" by (rule Cons.IH)
  then show ?case by simp
qed

lemma then_do_invariant:
  assumes "J (\<not> isl (fst r)) (trace (snd r))"
    and "\<And>w. J True (trace w) \<Longrightarrow> J (\<not> isl (fst (f w))) (trace (snd (f w)))"
  shows "J (\<not> isl (fst (then_do r f))) (trace (snd (then_do r f)))"
  using assms by (cases r) (auto simp: then_do_def split: sum.splits)

lemma scan_ports_invariant:
  assumes weaken: "\<And>t. J True t \<Longrightarrow> J False t"
    and step: "\<And>t e. J True t \<Longrightarrow> quiet e \<Longrightarrow> J True (t @ [e])"
    and loop: "\<And>ip ps opens w. J True (trace w) \<Longrightarrow>
       J (\<not> isl (fst (scan_loop env ip ps opens w))) (trace (snd (scan_loop env ip ps opens w)))"
    and start: "J True (trace w)"
  shows "J (\<not> isl (fst (scan_ports env h ports w))) (trace (snd (scan_ports env h ports w)))"
proof -
  have any: "\<And>b t. J True t \<Longrightarrow> J b t"
    using weaken by (case_tac b) auto
  have em: "J True (trace (emit e w))" if "J True (trace w)" "quiet e" for e w
    using that step by simp
  obtain r w1 where rw: "resolve_host env h w = (r, w1)"
    by (cases "resolve_host env h w")
  have w1: "J True (trace w1)"
    using resolve_host_quiet [of env h w] quiet_steps_invariant [of "J True", OF step start] rw
    by auto
  show ?thesis
  proof (cases r)
    case (Inl e)
    then show ?thesis
      using rw any [OF w1, of False] by (simp add: scan_ports_def)
  next
    case ip: (Inr ip)
    show ?thesis
    proof (cases "truthy ip")
      case False
      have "J True (trace (emit (Print (CannotResolveScan h)) w1))"
        by (rule em [OF w1]) (simp add: quiet_def)
      then show ?thesis
        using rw ip False by (simp add: scan_ports_def)
    next
      case True
      let ?w2 = "emit (Print (StartingScan h (the ip))) w1"
      have w2: "J True (trace ?w2)"
        by (rule em [OF w1]) (simp add: quiet_def)
      show ?thesis
      proof (cases "parse_ports (split_comma ports)")
        case (Inl e)
        then show ?thesis
          using rw ip True any [OF w2, of False] by (simp add: scan_ports_def Let_def)
      next
        case pl: (Inr port_list)
        obtain r3 w3 where l: "scan_loop env (the ip) port_list [] ?w2 = (r3, w3)"
          by (cases "scan_loop env (the ip) port_list [] ?w2")
        have w3: "J (\<not> isl r3) (trace w3)"
          using loop [OF w2, of "the ip" port_list "[]"] l by simp
        show ?thesis
        proof (cases r3)
          case (Inl e)
          then show ?thesis
            using rw ip True pl l w3 by (simp add: scan_ports_def Let_def)
        next
          case opens: (Inr open_ports)
          have w4: "J True (trace (emit (Print ScanCompleted) w3))"
            using w3 opens by (intro em) (simp_all add: quiet_def)
          have "J True (trace (emit (Print (SummaryOpenPorts open_ports)) (emit (Print ScanCompleted) w3)))"
            by (rule em [OF w4]) (simp add: quiet_def)
          moreover have "J True (trace (emit (Print SummaryNoOpenPorts) (emit (Print ScanCompleted) w3)))"
            by (rule em [OF w4]) (simp add: quiet_def)
          ultimately show ?thesis
            using rw ip True pl l opens by (simp add: scan_ports_def Let_def)
        qed
      qed
    qed
  qed
qed

lemma main_invariant:
  assumes weaken: "\<And>t. J True t \<Longrightarrow> J False t"
    and step: "\<And>t e. J True t \<Longrightarrow> quiet e \<Longrightarrow> J True (t @ [e])"
    and loop: "\<And>ip ps opens w. J True (trace w) \<Longrightarrow>
       J (\<not> isl (fst (scan_loop env ip ps opens w))) (trace (snd (scan_loop env ip ps opens w)))"
    and start: "J True (trace w)"
  shows "J (\<not> isl (fst (main env argv w))) (trace (snd (main env argv w)))"
proof -
  have scan: "J (\<not> isl (fst (scan_ports env h ports w))) (trace (snd (scan_ports env h ports w)))"
    if "J True (trace w)" for h ports w
    using weaken step loop that by (rule scan_ports_invariant [where J = J])
  have any: "\<And>b t. J True t \<Longrightarrow> J b t"
    using weaken by (case_tac b) auto
  have steps: "\<And>t es. J True t \<Longrightarrow> list_all quiet es \<Longrightarrow> J True (t @ es)"
    using quiet_steps_invariant [of "J True"] step by blast
  have ping: "J b (trace (snd (ping_host env h w)))" if "J True (trace w)" for b h w
    using ping_host_quiet [of env h w] steps [OF that] any by metis
  have tr: "J b (trace (snd (traceroute env h w)))" if "J True (trace w)" for b h w
    using traceroute_quiet [of env h w] steps [OF that] any by metis
  have res: "J b (trace (snd (resolve_host env h w)))" if "J True (trace w)" for b h w
    using resolve_host_quiet [of env h w] steps [OF that] any by metis
  have em: "J True (trace (emit e w))" if "J True (trace w)" "quiet e" for e w
    using that step by simp
  have skip: "J (\<not> isl (fst (Inr () :: pyexn + unit, w))) (trace (snd (Inr () :: pyexn + unit, w)))"
    if "J True (trace w)" for w
    using that by simp
  have disp: "J (\<not> isl (fst (main_dispatch env a w))) (trace (snd (main_dispatch env a w)))"
    if "J True (trace w)" for a w
    unfolding main_dispatch_def Let_def
    by (auto intro!: then_do_invariant [where J = J] ping tr scan skip that)
  have banner: "J True (trace (emit (Print Banner) w))"
    by (rule em [OF start]) (simp add: quiet_def)
  show ?thesis
  proof (cases "length argv = 1")
    case True
    have "J False (trace (emit PrintHelpStderr (emit (Print Banner) w)))"
      by (rule any, rule em [OF banner]) (simp add: quiet_def)
    then show ?thesis
      using True by (simp add: main_def Let_def)
  next
    case False
    show ?thesis
    proof (cases "parse_args env argv")
      case (Inl e)
      then show ?thesis
        using False any [OF banner, of False] by (simp add: main_def Let_def)
    next
      case (Inr a)
      let ?w2 = "emit (Print (Resolving (arg_host a))) (emit (Print Banner) w)"
      have w2: "J True (trace ?w2)"
        by (rule em [OF banner]) (simp add: quiet_def)
      obtain r w3 where rw: "resolve_host env (arg_host a) ?w2 = (r, w3)"
        by (cases "resolve_host env (arg_host a) ?w2")
      have w3: "J b (trace w3)" for b
        using res [OF w2, of b "arg_host a"] rw by simp
      show ?thesis
      proof (cases r)
        case (Inl e)
        then show ?thesis
          using False Inr rw w3 [of False] by (simp add: main_def Let_def)
      next
        case ip: (Inr ip)
        let ?w4 = "if truthy ip then emit (Print (Resolved (arg_host a) (the ip))) w3
                   else emit (Print (CouldNotResolve (arg_host a))) w3"
        have "J True (trace ?w4)"
          using em [OF w3 [of True]] by (simp add: quiet_def)
        from disp [OF this, of a] show ?thesis
          using False Inr rw ip by (simp add: main_def Let_def)
      qed
    qed
  qed
qed

section \<open>The status of a probed port\<close>

lemma scan_loop_classified:
  "classified (trace w) \<Longrightarrow> classified (trace (snd (scan_loop env ip ps opens w)))"
proof (induction ps arbitrary: opens w)
  case Nil
  then show ?case by simp
next
  case (Cons p ps)
  show ?case
  proof (cases "p < 0 \<or> 65535 < p")
    case True
    then show ?thesis
      using Cons.prems by (simp add: connect_ex_def Let_def classified_def)
  next
    case False
    let ?w2 = "(emit (SetDefaultTimeout 1) (emit (SocketNew (defaulttimeout w)) w))
                 \<lparr>defaulttimeout := Some 1\<rparr>"
    let ?c = "connect env (length (trace ?w2)) ip p (defaulttimeout w)"
    let ?w3 = "emit (ConnectEx ip p (defaulttimeout w) (Inr ?c)) ?w2"
    let ?line = "if ?c = 0 then PortOpen p else PortClosed p"
    let ?w4 = "emit SocketClose (emit (Print ?line) ?w3)"
    have "classified (trace ?w4)"
      using Cons.prems by (simp add: classified_def printed_status_def)
    then have "classified (trace (snd (scan_loop env ip ps (if ?c = 0 then opens @ [p] else opens) ?w4)))"
      by (rule Cons.IH)
    then show ?thesis
      using False by (simp add: connect_ex_def Let_def split: if_splits)
  qed
qed

text \<open>
  Claim C1, as the code has it. The program knows two states, not four. In every run, every
  probe that returned is reported by one line, in the order of the probes, and the line says
  \<open>Open\<close> when \<^verbatim>\<open>connect_ex\<close> returned 0 and \<open>Closed\<close> for every other value:
  a refusal, a timeout and any other transport error alike. No line says Filtered/Timeout
  or Error.
\<close>

theorem main_classifies_open_or_closed:
  "port_results (trace (snd (main env argv init_world)))
     = map (\<lambda>(port, tmo, result). (port, printed_status result))
         (probe_outcomes (trace (snd (main env argv init_world))))"
proof -
  have "(\<lambda>b. classified) (\<not> isl (fst (main env argv init_world)))
          (trace (snd (main env argv init_world)))"
  proof (rule main_invariant [where J = "\<lambda>b. classified"])
    show "classified (t @ [e])" if "classified t" "quiet e" for t e
      using that by (simp add: classified_def quiet_def)
    show "classified (trace (snd (scan_loop env ip ps opens w)))" if "classified (trace w)"
      for ip ps opens w
      using that by (rule scan_loop_classified)
    show "classified (trace init_world)"
      by (simp add: classified_def init_world_def)
  qed simp
  then show ?thesis
    by (simp add: classified_def)
qed

text \<open>
  The claim as stated fails when no answer comes back. In the lab, ports 81 and 82 drop the
  packets: the attempt on 81 ends with \<open>ETIMEDOUT\<close>, the one on 82 with \<open>EAGAIN\<close>
  after the timeout of one second. The specification classifies both as Filtered/Timeout;
  the program reports both as Closed.
\<close>

lemma parse_81_82: "parse_ports (split_comma ''81,82'') = Inr [81, 82]"
  by code_simp

theorem timeout_reported_closed:
  "probe_outcomes (trace (snd (main lab [''net_diag_tool.py'', ''lab'', ''-s'', ''81,82''] init_world)))
     = [(81, None, ETIMEDOUT), (82, Some 1, EAGAIN)]
   \<and> spec_status ETIMEDOUT = FilteredTimeout \<and> spec_status EAGAIN = FilteredTimeout
   \<and> port_results (trace (snd (main lab [''net_diag_tool.py'', ''lab'', ''-s'', ''81,82''] init_world)))
     = [(81, Closed), (82, Closed)]"
  by (simp add: run_defs lab_def lab_args_def parse_81_82 spec_status_def
      ECONNREFUSED_def ETIMEDOUT_def EAGAIN_def)

section \<open>Sockets open at the same time\<close>




lemma socket_events_Nil [simp]: "socket_events [] = []"
  by (simp add: socket_events_def)

lemma socket_events_Cons [simp]: "socket_events (e # t) = socket_event_of e @ socket_events t"
  by (simp add: socket_events_def)

lemma socket_events_append [simp]: "socket_events (s @ t) = socket_events s @ socket_events t"
  by (simp add: socket_events_def)


section \<open>Failures the program handles\<close>

lemma resolve_host_handled:
  assumes h: "handled_failures env"
  shows "\<exists>ip. fst (resolve_host env host w) = Inr ip"
proof (cases "gethostbyname env (length (trace w)) host")
  case (Inl e)
  then have "e = Gaierror"
    using h by (simp add: handled_failures_def)
  then show ?thesis
    using Inl by (simp add: resolve_host_def Let_def)
next
  case (Inr ip)
  then show ?thesis
    by (simp add: resolve_host_def Let_def)
qed

lemma ping_host_handled:
  assumes h: "handled_failures env"
  shows "fst (ping_host env host w) = Inr ()"
proof -
  let ?command = "[''ping'', if windows env then ''-n'' else ''-c'', ''1'', host]"
  show ?thesis
  proof (cases "check_output env (length (trace (emit (Print (Pinging host)) w))) ?command")
    case (Inl e)
    have "e = CalledProcessError \<or> e = FileNotFoundError"
      using h Inl unfolding handled_failures_def by blast
    then show ?thesis
      using Inl by (auto simp: ping_host_def Let_def)
  next
    case (Inr out)
    then show ?thesis
      by (simp add: ping_host_def Let_def)
  qed
qed

lemma traceroute_handled:
  assumes h: "handled_failures env"
  shows "fst (traceroute env host w) = Inr ()"
proof (cases "gethostbyname env (length (trace w)) host")
  case (Inl e)
  then have "e = Gaierror"
    using h by (simp add: handled_failures_def)
  then show ?thesis
    using Inl by (simp add: traceroute_def resolve_host_def truthy_def Let_def)
next
  case (Inr ip)
  let ?command = "if windows env then ''tracert'' else ''traceroute''"
  let ?w2 = "emit (Print (PerformingTraceroute host ip)) (emit (GetHostByName host) w)"
  show ?thesis
  proof (cases "popen env (length (trace ?w2)) [?command, host]")
    case (Inl e)
    have "e = FileNotFoundError"
      using h Inl unfolding handled_failures_def by blast
    then show ?thesis
      using Inl Inr by (simp add: traceroute_def resolve_host_def truthy_def Let_def)
  next
    case lines: (Inr lines)
    then show ?thesis
      using Inr by (simp add: traceroute_def resolve_host_def truthy_def Let_def)
  qed
qed

lemma scan_ports_handled:
  assumes h: "handled_failures env" and wf: "well_formed_ports ports"
  shows "fst (scan_ports env host ports w) = Inr ()"
proof (cases "gethostbyname env (length (trace w)) host")
  case (Inl e)
  then have "e = Gaierror"
    using h by (simp add: handled_failures_def)
  then show ?thesis
    using Inl by (simp add: scan_ports_def resolve_host_def truthy_def Let_def)
next
  case (Inr ip)
  show ?thesis
  proof (cases "ip = []")
    case True
    then show ?thesis
      using Inr by (simp add: scan_ports_def resolve_host_def truthy_def Let_def)
  next
    case False
    from wf obtain port_list where
      p: "parse_ports (split_comma ports) = Inr port_list"
        "list_all (\<lambda>port. 0 \<le> port \<and> port \<le> 65535) port_list"
      by (auto simp: well_formed_ports_def split: sum.splits)
    from scan_ports_complete [OF Inr False p] show ?thesis
      by auto
  qed
qed

lemma common_ports_well_formed: "well_formed_ports common_ports"
  by code_simp

lemma then_do_normal: "fst r = Inr () \<Longrightarrow> then_do r f = f (snd r)"
  by (cases r) (simp add: then_do_def)

lemma main_dispatch_handled:
  assumes h: "handled_failures env"
    and wf: "\<not> arg_all a \<and> truthy (arg_scan a) \<longrightarrow> well_formed_ports (the (arg_scan a))"
  shows "fst (main_dispatch env a w) = Inr ()
    \<and> (arg_all a \<or> arg_traceroute a \<longrightarrow> (\<exists>w1. main_dispatch env a w = traceroute env (arg_host a) w1))"
proof (cases "arg_all a")
  case True
  let ?p = "ping_host env (arg_host a) w"
  let ?s = "scan_ports env (arg_host a) common_ports (snd ?p)"
  have 1: "then_do ?p (scan_ports env (arg_host a) common_ports) = ?s"
    using ping_host_handled [OF h] by (simp add: then_do_normal)
  have 2: "fst ?s = Inr ()"
    using h common_ports_well_formed by (rule scan_ports_handled)
  have "main_dispatch env a w = traceroute env (arg_host a) (snd ?s)"
    using True 1 2 by (simp add: main_dispatch_def then_do_normal Let_def)
  then show ?thesis
    using traceroute_handled [OF h] by auto
next
  case False
  let ?p = "if arg_ping a then ping_host env (arg_host a) w else (Inr (), w)"
  let ?f = "\<lambda>w. if truthy (arg_scan a) then scan_ports env (arg_host a) (the (arg_scan a)) w
                else (Inr (), w)"
  let ?s = "?f (snd ?p)"
  let ?g = "\<lambda>w. if arg_traceroute a then traceroute env (arg_host a) w else (Inr (), w)"
  have p: "fst ?p = Inr ()"
    using ping_host_handled [OF h] by simp
  have 1: "then_do ?p ?f = ?s"
    using p by (rule then_do_normal)
  have 2: "fst ?s = Inr ()"
    using scan_ports_handled [OF h] wf False by simp
  have "main_dispatch env a w = then_do (then_do ?p ?f) ?g"
    using False by (simp add: main_dispatch_def Let_def)
  then have 3: "main_dispatch env a w = ?g (snd ?s)"
    using 2 by (simp only: 1 then_do_normal)
  show ?thesis
    using traceroute_handled [OF h] False by (auto simp: 3)
qed

lemma parse_80_443: "well_formed_ports ''80,443''"
  by code_simp

lemma parse_80_x: "parse_ports (split_comma ''80,x'') = Inl ValueError"
  by code_simp

lemma parse_http: "parse_ports (split_comma ''http'') = Inl ValueError"
  by code_simp

lemma parse_empty: "parse_ports (split_comma []) = Inl ValueError"
  by code_simp

lemma handled_failures_lab: "handled_failures lab"
  by (simp add: handled_failures_def lab_def)

lemma scan_ports_unresolved:
  "gethostbyname env (length (trace v)) host = Inl Gaierror \<Longrightarrow>
   scan_ports env host ports v
     = (Inr (), emit (Print (CannotResolveScan host)) (emit (GetHostByName host) v))"
  by (simp add: scan_ports_def resolve_host_def truthy_def Let_def)

lemma ping_host_status_line:
  assumes h: "handled_failures env"
    and c: "check_output env (Suc (length (trace v)))
              [''ping'', if windows env then ''-n'' else ''-c'', ''1'', host] = Inl e"
  shows "ping_host env host v
      = (Inr (), emit (Print (if e = CalledProcessError then HostUnreachable else PingNotFound))
           (emit (CheckOutput [''ping'', if windows env then ''-n'' else ''-c'', ''1'', host])
             (emit (Print (Pinging host)) v)))"
proof -
  have "e = CalledProcessError \<or> e = FileNotFoundError"
    using h c unfolding handled_failures_def by blast
  then show ?thesis
    using c by (auto simp: ping_host_def Let_def)
qed

lemma traceroute_status_line:
  "(gethostbyname env (length (trace v)) host = Inl Gaierror \<longrightarrow>
      traceroute env host v
        = (Inr (), emit (Print (CannotResolveTraceroute host)) (emit (GetHostByName host) v)))
   \<and> (gethostbyname env (length (trace v)) host = Inr ip \<longrightarrow> ip \<noteq> [] \<longrightarrow>
       popen env (length (trace v) + 2)
         [if windows env then ''tracert'' else ''traceroute'', host] = Inl FileNotFoundError \<longrightarrow>
       traceroute env host v
         = (Inr (), emit (Print (TracerouteNotFound
                             (if windows env then ''tracert'' else ''traceroute'')))
              (emit (Popen [if windows env then ''tracert'' else ''traceroute'', host])
                (emit (Print (PerformingTraceroute host ip)) (emit (GetHostByName host) v)))))"
  by (simp add: traceroute_def resolve_host_def truthy_def Let_def)

lemma main_dispatch_steps:
  assumes h: "handled_failures env"
    and wf: "\<not> arg_all a \<and> truthy (arg_scan a) \<longrightarrow> well_formed_ports (the (arg_scan a))"
  shows "\<exists>w1 w2 w3.
      (if arg_all a \<or> arg_ping a then ping_host env (arg_host a) w = (Inr (), w1) else w1 = w)
    \<and> (if arg_all a then scan_ports env (arg_host a) common_ports w1 = (Inr (), w2)
       else if truthy (arg_scan a)
         then scan_ports env (arg_host a) (the (arg_scan a)) w1 = (Inr (), w2)
         else w2 = w1)
    \<and> (if arg_all a \<or> arg_traceroute a then traceroute env (arg_host a) w2 = (Inr (), w3)
       else w3 = w2)
    \<and> main_dispatch env a w = (Inr (), w3)"
proof -
  let ?h = "arg_host a"
  let ?ports = "if arg_all a then common_ports else the (arg_scan a)"
  let ?w1 = "if arg_all a \<or> arg_ping a then snd (ping_host env ?h w) else w"
  let ?w2 = "if arg_all a \<or> truthy (arg_scan a) then snd (scan_ports env ?h ?ports ?w1) else ?w1"
  let ?w3 = "if arg_all a \<or> arg_traceroute a then snd (traceroute env ?h ?w2) else ?w2"
  have wfp: "arg_all a \<or> truthy (arg_scan a) \<Longrightarrow> well_formed_ports ?ports"
    using wf common_ports_well_formed by auto
  have pf: "fst (ping_host env ?h w) = Inr ()"
    by (rule ping_host_handled [OF h])
  have sf: "arg_all a \<or> truthy (arg_scan a) \<Longrightarrow> fst (scan_ports env ?h ?ports ?w1) = Inr ()"
    by (rule scan_ports_handled [OF h wfp])
  have tf: "fst (traceroute env ?h ?w2) = Inr ()"
    by (rule traceroute_handled [OF h])
  have pair: "r = (Inr (), snd r)" if "fst r = Inr ()" for r :: "(pyexn + unit) \<times> world"
    using that by (cases r) simp
  have m: "main_dispatch env a w = (Inr (), ?w3)"
  proof (cases "arg_all a")
    case True
    have 1: "then_do (ping_host env ?h w) (scan_ports env ?h common_ports)
        = scan_ports env ?h common_ports (snd (ping_host env ?h w))"
      using pf by (rule then_do_normal)
    have 2: "fst (scan_ports env ?h common_ports (snd (ping_host env ?h w))) = Inr ()"
      using sf True by simp
    have "main_dispatch env a w
        = then_do (then_do (ping_host env ?h w) (scan_ports env ?h common_ports))
            (traceroute env ?h)"
      using True by (simp add: main_dispatch_def Let_def)
    also have "\<dots> = traceroute env ?h
        (snd (scan_ports env ?h common_ports (snd (ping_host env ?h w))))"
      using 2 by (simp only: 1 then_do_normal)
    finally have "main_dispatch env a w = traceroute env ?h ?w2"
      using True by simp
    then show ?thesis
      using pair [OF tf] True by simp
  next
    case False
    let ?p = "if arg_ping a then ping_host env ?h w else (Inr (), w)"
    let ?f = "\<lambda>w. if truthy (arg_scan a) then scan_ports env ?h (the (arg_scan a)) w
                  else (Inr (), w)"
    let ?g = "\<lambda>w. if arg_traceroute a then traceroute env ?h w else (Inr (), w)"
    have 1: "fst ?p = Inr ()" "snd ?p = ?w1"
      using pf False by simp_all
    have 2: "fst (?f ?w1) = Inr ()" "snd (?f ?w1) = ?w2"
      using sf False by simp_all
    have 3: "fst (?g ?w2) = Inr ()" "snd (?g ?w2) = ?w3"
      using tf False by simp_all
    have "main_dispatch env a w = then_do (then_do ?p ?f) ?g"
      using False by (simp add: main_dispatch_def Let_def)
    also have "then_do ?p ?f = ?f ?w1"
      using then_do_normal [OF 1(1), of ?f] by (simp only: 1(2))
    also have "then_do (?f ?w1) ?g = ?g ?w2"
      using then_do_normal [OF 2(1), of ?g] by (simp only: 2(2))
    also have "?g ?w2 = (Inr (), ?w3)"
      using pair [OF 3(1)] by (simp only: 3(2))
    finally show ?thesis .
  qed
  have e1: "if arg_all a \<or> arg_ping a then ping_host env ?h w = (Inr (), ?w1) else ?w1 = w"
    using pair [OF pf] by simp
  have e2: "if arg_all a then scan_ports env ?h common_ports ?w1 = (Inr (), ?w2)
       else if truthy (arg_scan a)
         then scan_ports env ?h (the (arg_scan a)) ?w1 = (Inr (), ?w2)
         else ?w2 = ?w1"
  proof (cases "arg_all a \<or> truthy (arg_scan a)")
    case True
    from pair [OF sf [OF True]] True show ?thesis
      by (cases "arg_all a") simp_all
  next
    case False
    then show ?thesis by simp
  qed
  have e3: "if arg_all a \<or> arg_traceroute a then traceroute env ?h ?w2 = (Inr (), ?w3)
       else ?w3 = ?w2"
    using pair [OF tf] by simp
  from e1 e2 e3 m show ?thesis
    by blast
qed

text \<open>
  Claim C7, as the code has it. When the port list, if one is scanned, is well formed (every
  piece converts to a number in 0..65535), the failures the program has a handler for do not
  abort the run: a name that does not resolve, a ping that fails, a missing \<^verbatim>\<open>ping\<close> or
  \<^verbatim>\<open>traceroute\<close> executable, a probe that does not connect. Every requested step is
  run, in the order ping, scan, traceroute, each from the world the step before left, and
  each returns normally. A handled failure of \<^verbatim>\<open>ping\<close>, of the scanner's lookup or of
  \<^verbatim>\<open>traceroute\<close> ends its step with the status line of the handler as the last effect of
  the step.
\<close>

theorem handled_failures_do_not_abort:
  assumes "handled_failures env"
    and "\<not> arg_all a \<and> truthy (arg_scan a) \<longrightarrow> well_formed_ports (the (arg_scan a))"
  shows "(\<exists>w1 w2 w3.
        (if arg_all a \<or> arg_ping a then ping_host env (arg_host a) w = (Inr (), w1)
         else w1 = w)
      \<and> (if arg_all a then scan_ports env (arg_host a) common_ports w1 = (Inr (), w2)
         else if truthy (arg_scan a)
           then scan_ports env (arg_host a) (the (arg_scan a)) w1 = (Inr (), w2)
           else w2 = w1)
      \<and> (if arg_all a \<or> arg_traceroute a then traceroute env (arg_host a) w2 = (Inr (), w3)
         else w3 = w2)
      \<and> main_dispatch env a w = (Inr (), w3))
    \<and> (check_output env (Suc (length (trace v)))
          [''ping'', if windows env then ''-n'' else ''-c'', ''1'', host] = Inl e \<longrightarrow>
        ping_host env host v
          = (Inr (), emit (Print (if e = CalledProcessError then HostUnreachable else PingNotFound))
               (emit (CheckOutput [''ping'', if windows env then ''-n'' else ''-c'', ''1'', host])
                 (emit (Print (Pinging host)) v))))
    \<and> (gethostbyname env (length (trace v)) host = Inl Gaierror \<longrightarrow>
        scan_ports env host ports v
          = (Inr (), emit (Print (CannotResolveScan host)) (emit (GetHostByName host) v)))
    \<and> (gethostbyname env (length (trace v)) host = Inl Gaierror \<longrightarrow>
        traceroute env host v
          = (Inr (), emit (Print (CannotResolveTraceroute host)) (emit (GetHostByName host) v)))
    \<and> (gethostbyname env (length (trace v)) host = Inr ip \<longrightarrow> ip \<noteq> [] \<longrightarrow>
        popen env (length (trace v) + 2)
          [if windows env then ''tracert'' else ''traceroute'', host] = Inl FileNotFoundError \<longrightarrow>
        traceroute env host v
          = (Inr (), emit (Print (TracerouteNotFound
                              (if windows env then ''tracert'' else ''traceroute'')))
               (emit (Popen [if windows env then ''tracert'' else ''traceroute'', host])
                 (emit (Print (PerformingTraceroute host ip)) (emit (GetHostByName host) v)))))"
  using main_dispatch_steps [OF assms, of w] ping_host_status_line [OF assms(1), of v host e]
    traceroute_status_line [of env v host ip] scan_ports_unresolved [of env v host ports]
  by blast

theorem handled_failures_do_not_abort_witness:
  "handled_failures lab
   \<and> well_formed_ports ''80,443''
   \<and> (\<exists>w1 w2 w3. ping_host lab ''lab'' init_world = (Inr (), w1)
        \<and> scan_ports lab ''lab'' ''80,443'' w1 = (Inr (), w2)
        \<and> traceroute lab ''lab'' w2 = (Inr (), w3)
        \<and> main_dispatch lab
             \<lparr>arg_host = ''lab'', arg_ping = True, arg_scan = Some ''80,443'',
              arg_traceroute = True, arg_all = False\<rparr> init_world = (Inr (), w3))
   \<and> check_output lab (Suc (length (trace init_world)))
         [''ping'', if windows lab then ''-n'' else ''-c'', ''1'', ''lab''] = Inl CalledProcessError
   \<and> trace (snd (ping_host lab ''lab'' init_world))
       = [Print (Pinging ''lab''), CheckOutput [''ping'', ''-c'', ''1'', ''lab''],
          Print HostUnreachable]
   \<and> gethostbyname lab (length (trace init_world)) ''lab'' = Inr ''10.0.0.1''
   \<and> popen lab (length (trace init_world) + 2)
         [if windows lab then ''tracert'' else ''traceroute'', ''lab''] = Inl FileNotFoundError
   \<and> trace (snd (traceroute lab ''lab'' init_world))
       = [GetHostByName ''lab'', Print (PerformingTraceroute ''lab'' ''10.0.0.1''),
          Popen [''traceroute'', ''lab''], Print (TracerouteNotFound ''traceroute'')]
   \<and> gethostbyname lab_no_dns (length (trace init_world)) ''lab'' = Inl Gaierror
   \<and> trace (snd (traceroute lab_no_dns ''lab'' init_world))
       = [GetHostByName ''lab'', Print (CannotResolveTraceroute ''lab'')]
   \<and> trace (snd (scan_ports lab_no_dns ''lab'' ''80,443'' init_world))
       = [GetHostByName ''lab'', Print (CannotResolveScan ''lab'')]"
proof -
  let ?a = "\<lparr>arg_host = ''lab'', arg_ping = True, arg_scan = Some ''80,443'',
        arg_traceroute = True, arg_all = False\<rparr>"
  have wf: "\<not> arg_all ?a \<and> truthy (arg_scan ?a) \<longrightarrow> well_formed_ports (the (arg_scan ?a))"
    using parse_80_443 by simp
  have h2: "handled_failures lab_no_dns"
    by (simp add: handled_failures_def lab_no_dns_def lab_def)
  have c: "check_output lab (Suc (length (trace init_world)))
         [''ping'', if windows lab then ''-n'' else ''-c'', ''1'', ''lab''] = Inl CalledProcessError"
    by (simp add: lab_def)
  have g: "gethostbyname lab (length (trace init_world)) ''lab'' = Inr ''10.0.0.1''"
    by (simp add: lab_def)
  have p: "popen lab (length (trace init_world) + 2)
         [if windows lab then ''tracert'' else ''traceroute'', ''lab''] = Inl FileNotFoundError"
    by (simp add: lab_def)
  have g2: "gethostbyname lab_no_dns (length (trace init_world)) ''lab'' = Inl Gaierror"
    by (simp add: lab_no_dns_def)
  have w: "windows lab = False"
    by (simp add: lab_def)
  note t1 = handled_failures_do_not_abort [OF handled_failures_lab wf,
      where w = init_world and v = init_world and host = "''lab''" and e = CalledProcessError
        and ip = "''10.0.0.1''" and ports = "''80,443''"]
  note t2 = handled_failures_do_not_abort [OF h2 wf,
      where w = init_world and v = init_world and host = "''lab''" and e = CalledProcessError
        and ip = "''10.0.0.1''" and ports = "''80,443''"]
  have steps: "\<exists>w1 w2 w3. ping_host lab ''lab'' init_world = (Inr (), w1)
        \<and> scan_ports lab ''lab'' ''80,443'' w1 = (Inr (), w2)
        \<and> traceroute lab ''lab'' w2 = (Inr (), w3)
        \<and> main_dispatch lab ?a init_world = (Inr (), w3)"
    using t1 [THEN conjunct1] by (simp add: truthy_def)
  have lines: "trace (snd (ping_host lab ''lab'' init_world))
       = [Print (Pinging ''lab''), CheckOutput [''ping'', ''-c'', ''1'', ''lab''],
          Print HostUnreachable]
     \<and> trace (snd (traceroute lab ''lab'' init_world))
       = [GetHostByName ''lab'', Print (PerformingTraceroute ''lab'' ''10.0.0.1''),
          Popen [''traceroute'', ''lab''], Print (TracerouteNotFound ''traceroute'')]"
    using c g p t1 [THEN conjunct2] by (simp add: w init_world_def emit_def)
  have lines2: "trace (snd (traceroute lab_no_dns ''lab'' init_world))
       = [GetHostByName ''lab'', Print (CannotResolveTraceroute ''lab'')]
     \<and> trace (snd (scan_ports lab_no_dns ''lab'' ''80,443'' init_world))
       = [GetHostByName ''lab'', Print (CannotResolveScan ''lab'')]"
    using g2 t2 [THEN conjunct2] by (simp add: init_world_def emit_def)
  show ?thesis
    using handled_failures_lab parse_80_443 steps c g p g2 lines lines2
    by (intro conjI) simp_all
qed

text \<open>The claim as stated fails on a malformed port list: with \<^verbatim>\<open>-p -s 80,x -t\<close> the
  \<^verbatim>\<open>ValueError\<close> of \<^verbatim>\<open>int('x')\<close> leaves \<^verbatim>\<open>scan_ports\<close> and \<^verbatim>\<open>main\<close> uncaught:
  port 80 is never probed and the traceroute never starts.\<close>

theorem malformed_port_aborts_run:
  "fst (main lab [''net_diag_tool.py'', ''lab'', ''-p'', ''-s'', ''80,x'', ''-t''] init_world)
     = Inl ValueError
   \<and> probed_ports (trace (snd (main lab
         [''net_diag_tool.py'', ''lab'', ''-p'', ''-s'', ''80,x'', ''-t''] init_world))) = []
   \<and> Popen [''traceroute'', ''lab''] \<notin> set (trace (snd (main lab
         [''net_diag_tool.py'', ''lab'', ''-p'', ''-s'', ''80,x'', ''-t''] init_world)))"
  by (simp add: run_defs lab_def lab_args_def parse_80_x)

section \<open>The exit status\<close>

text \<open>
  Claim C9, as the code has it. Without any argument the program prints the help to standard
  error and exits with status 1. When argparse itself rejects or answers the command line,
  the process exits with the status argparse chooses. When the arguments parse, the port
  list (if one is scanned) is well formed and the library calls fail only in the ways the
  program handles, the process exits with status 0, whatever the steps found. All this
  holds when the interpreter can flush the standard streams as it shuts down; when it cannot,
  the status is 120.
\<close>

theorem exit_status:
  "(length argv = 1 \<longrightarrow>
      main env argv w = (Inl (SystemExit 1), emit PrintHelpStderr (emit (Print Banner) w))
      \<and> (flush_stdio env \<longrightarrow> exit_code env (main env argv w) = 1))
   \<and> (flush_stdio env \<longrightarrow> length argv \<noteq> 1 \<longrightarrow> parse_args env argv = Inl (SystemExit n) \<longrightarrow>
        exit_code env (main env argv w) = n)
   \<and> (flush_stdio env \<longrightarrow> length argv \<noteq> 1 \<longrightarrow> parse_args env argv = Inr a \<longrightarrow>
        handled_failures env \<longrightarrow>
        (\<not> arg_all a \<and> truthy (arg_scan a) \<longrightarrow> well_formed_ports (the (arg_scan a))) \<longrightarrow>
        exit_code env (main env argv w) = 0)
   \<and> (\<not> flush_stdio env \<longrightarrow> exit_code env (main env argv w) = 120)"
proof (intro conjI impI)
  assume "length argv = 1"
  then show m: "main env argv w
      = (Inl (SystemExit 1), emit PrintHelpStderr (emit (Print Banner) w))"
    by (simp add: main_def Let_def)
  assume "flush_stdio env"
  then show "exit_code env (main env argv w) = 1"
    using m by (simp add: exit_code_def)
next
  assume "flush_stdio env" "length argv \<noteq> 1" "parse_args env argv = Inl (SystemExit n)"
  then show "exit_code env (main env argv w) = n"
    by (simp add: main_def Let_def exit_code_def)
next
  assume f: "flush_stdio env" and argv: "length argv \<noteq> 1"
    and a: "parse_args env argv = Inr a" and h: "handled_failures env"
    and wf: "\<not> arg_all a \<and> truthy (arg_scan a) \<longrightarrow> well_formed_ports (the (arg_scan a))"
  let ?w2 = "emit (Print (Resolving (arg_host a))) (emit (Print Banner) w)"
  obtain ip where ip: "fst (resolve_host env (arg_host a) ?w2) = Inr ip"
    using resolve_host_handled [OF h] by blast
  obtain w3 where w3: "resolve_host env (arg_host a) ?w2 = (Inr ip, w3)"
    using ip by (cases "resolve_host env (arg_host a) ?w2") simp
  let ?w4 = "if truthy ip then emit (Print (Resolved (arg_host a) (the ip))) w3
             else emit (Print (CouldNotResolve (arg_host a))) w3"
  have "main env argv w = main_dispatch env a ?w4"
    using argv a w3 by (simp add: main_def Let_def)
  then show "exit_code env (main env argv w) = 0"
    using f main_dispatch_handled [OF h wf, of ?w4] by (simp add: exit_code_def)
next
  assume "\<not> flush_stdio env"
  then show "exit_code env (main env argv w) = 120"
    by (simp add: exit_code_def)
qed

theorem exit_status_witness:
  "length [''net_diag_tool.py''] = 1
   \<and> flush_stdio lab
   \<and> exit_code lab (main lab [''net_diag_tool.py''] init_world) = 1
   \<and> length [''net_diag_tool.py'', ''-p''] \<noteq> 1
   \<and> parse_args lab [''net_diag_tool.py'', ''-p''] = Inl (SystemExit 2)
   \<and> exit_code lab (main lab [''net_diag_tool.py'', ''-p''] init_world) = 2
   \<and> length [''net_diag_tool.py'', ''lab'', ''-p'', ''-s'', ''80,443'', ''-t''] \<noteq> 1
   \<and> parse_args lab [''net_diag_tool.py'', ''lab'', ''-p'', ''-s'', ''80,443'', ''-t'']
       = Inr \<lparr>arg_host = ''lab'', arg_ping = True, arg_scan = Some ''80,443'',
              arg_traceroute = True, arg_all = False\<rparr>
   \<and> handled_failures lab
   \<and> well_formed_ports ''80,443''
   \<and> exit_code lab (main lab [''net_diag_tool.py'', ''lab'', ''-p'', ''-s'', ''80,443'', ''-t'']
         init_world) = 0
   \<and> \<not> flush_stdio (lab\<lparr>flush_stdio := False\<rparr>)
   \<and> exit_code (lab\<lparr>flush_stdio := False\<rparr>)
         (main (lab\<lparr>flush_stdio := False\<rparr>) [''net_diag_tool.py''] init_world) = 120"
proof -
  have f: "flush_stdio lab"
    by (simp add: lab_def)
  have p: "parse_args lab [''net_diag_tool.py'', ''-p''] = Inl (SystemExit 2)"
    by (simp add: lab_def lab_args_def)
  have q: "parse_args lab [''net_diag_tool.py'', ''lab'', ''-p'', ''-s'', ''80,443'', ''-t'']
       = Inr \<lparr>arg_host = ''lab'', arg_ping = True, arg_scan = Some ''80,443'',
              arg_traceroute = True, arg_all = False\<rparr>"
    by (simp add: lab_def lab_args_def)
  note e1 = exit_status [where argv = "[''net_diag_tool.py'']" and env = lab and w = init_world]
  note e2 = exit_status [where argv = "[''net_diag_tool.py'', ''-p'']" and env = lab
        and w = init_world and n = 2]
  note e3 = exit_status [where argv = "[''net_diag_tool.py'', ''lab'', ''-p'', ''-s'', ''80,443'', ''-t'']"
        and env = lab and w = init_world
        and a = "\<lparr>arg_host = ''lab'', arg_ping = True, arg_scan = Some ''80,443'',
              arg_traceroute = True, arg_all = False\<rparr>"]
  note e4 = exit_status [where argv = "[''net_diag_tool.py'']"
        and env = "lab\<lparr>flush_stdio := False\<rparr>" and w = init_world]
  have 1: "exit_code lab (main lab [''net_diag_tool.py''] init_world) = 1"
    using e1 f by (simp add: exit_code_def)
  have 2: "exit_code lab (main lab [''net_diag_tool.py'', ''-p''] init_world) = 2"
    using e2 f p by simp
  have 3: "exit_code lab (main lab [''net_diag_tool.py'', ''lab'', ''-p'', ''-s'', ''80,443'', ''-t'']
         init_world) = 0"
    using e3 f q handled_failures_lab parse_80_443 by (simp add: truthy_def)
  have 4: "exit_code (lab\<lparr>flush_stdio := False\<rparr>)
         (main (lab\<lparr>flush_stdio := False\<rparr>) [''net_diag_tool.py''] init_world) = 120"
    using e4 by (simp add: exit_code_def)
  show ?thesis
    using f p q handled_failures_lab parse_80_443 1 2 3 4 by simp
qed

text \<open>The claim as stated fails on two command lines that do have arguments, with
  streams that can be flushed: \<^verbatim>\<open>net_diag_tool.py -p\<close> lacks the host and argparse exits
  with status 2; \<^verbatim>\<open>net_diag_tool.py lab -s http\<close> ends with the traceback of
  \<^verbatim>\<open>ValueError\<close> and status 1.\<close>

theorem nonzero_exit_with_arguments:
  "length [''net_diag_tool.py'', ''-p''] \<noteq> 1
   \<and> exit_code lab (main lab [''net_diag_tool.py'', ''-p''] init_world) = 2
   \<and> length [''net_diag_tool.py'', ''lab'', ''-s'', ''http''] \<noteq> 1
   \<and> exit_code lab (main lab [''net_diag_tool.py'', ''lab'', ''-s'', ''http''] init_world) = 1"
  by (simp add: run_defs lab_def lab_args_def parse_http exit_code_def)

section \<open>An empty port string\<close>

text \<open>
  Claim C5, as the code has it. An empty port string never reaches the scanner: \<^verbatim>\<open>main\<close>
  tests \<^verbatim>\<open>if args.scan:\<close>, and the empty string is false. With \<^verbatim>\<open>-s ''\<close> the run is
  the run without \<^verbatim>\<open>-s\<close>: the scan step is skipped, nothing is printed for it (no
  report, no result line), and no error is raised; when no other step is requested, nothing
  happens at all.
\<close>

theorem empty_port_string_is_no_scan:
  assumes "\<not> arg_all a" and "arg_scan a = Some []"
  shows "main_dispatch env a w = main_dispatch env (a\<lparr>arg_scan := None\<rparr>) w
    \<and> (\<not> arg_ping a \<longrightarrow> \<not> arg_traceroute a \<longrightarrow> main_dispatch env a w = (Inr (), w))"
  using assms by (simp add: main_dispatch_def truthy_def then_do_def Let_def)

theorem empty_port_string_is_no_scan_witness:
  "\<not> arg_all \<lparr>arg_host = ''lab'', arg_ping = False, arg_scan = Some [],
              arg_traceroute = False, arg_all = False\<rparr>
   \<and> arg_scan \<lparr>arg_host = ''lab'', arg_ping = False, arg_scan = Some [],
              arg_traceroute = False, arg_all = False\<rparr> = Some []
   \<and> main_dispatch lab \<lparr>arg_host = ''lab'', arg_ping = False, arg_scan = Some [],
              arg_traceroute = False, arg_all = False\<rparr> init_world = (Inr (), init_world)"
  using empty_port_string_is_no_scan [of
      "\<lparr>arg_host = ''lab'', arg_ping = False, arg_scan = Some [],
              arg_traceroute = False, arg_all = False\<rparr>" lab init_world]
  by auto

text \<open>The claim as stated fails on \<^verbatim>\<open>scan_ports\<close> itself: on the empty string
  \<^verbatim>\<open>''.split(',')\<close> is \<^verbatim>\<open>['']\<close>, \<^verbatim>\<open>int('')\<close> raises \<^verbatim>\<open>ValueError\<close>, and no
  summary is printed.\<close>

theorem scan_ports_empty_string_raises:
  "fst (scan_ports lab ''lab'' [] init_world) = Inl ValueError
   \<and> summaries (trace (snd (scan_ports lab ''lab'' [] init_world))) = []"
  by (simp add: run_defs lab_def parse_empty)

section \<open>The deadline of a probe\<close>

lemma scan_loop_timeouts:
  "\<exists>ts. connect_timeouts (trace (snd (scan_loop env ip ps opens w)))
         = connect_timeouts (trace w) @ ts"
proof (induction ps arbitrary: opens w)
  case Nil
  show ?case by simp
next
  case (Cons p ps)
  show ?case
  proof (cases "p < 0 \<or> 65535 < p")
    case True
    then show ?thesis
      by (simp add: connect_ex_def Let_def)
  next
    case False
    let ?w2 = "(emit (SetDefaultTimeout 1) (emit (SocketNew (defaulttimeout w)) w))
                 \<lparr>defaulttimeout := Some 1\<rparr>"
    let ?c = "connect env (length (trace ?w2)) ip p (defaulttimeout w)"
    let ?w3 = "emit (ConnectEx ip p (defaulttimeout w) (Inr ?c)) ?w2"
    let ?line = "if ?c = 0 then PortOpen p else PortClosed p"
    let ?w4 = "emit SocketClose (emit (Print ?line) ?w3)"
    let ?opens = "if ?c = 0 then opens @ [p] else opens"
    obtain ts where "connect_timeouts (trace (snd (scan_loop env ip ps ?opens ?w4)))
        = connect_timeouts (trace ?w4) @ ts"
      using Cons.IH by blast
    then show ?thesis
      using False by (simp add: connect_ex_def Let_def split: if_splits)
  qed
qed

lemma scan_loop_first_timeout:
  "\<exists>ts. connect_timeouts (trace (snd (scan_loop env ip (port # rest) opens w)))
         = connect_timeouts (trace w) @ defaulttimeout w # ts"
proof (cases "port < 0 \<or> 65535 < port")
  case True
  then show ?thesis
    by (simp add: connect_ex_def Let_def)
next
  case False
  let ?w2 = "(emit (SetDefaultTimeout 1) (emit (SocketNew (defaulttimeout w)) w))
               \<lparr>defaulttimeout := Some 1\<rparr>"
  let ?c = "connect env (length (trace ?w2)) ip port (defaulttimeout w)"
  let ?w3 = "emit (ConnectEx ip port (defaulttimeout w) (Inr ?c)) ?w2"
  let ?line = "if ?c = 0 then PortOpen port else PortClosed port"
  let ?w4 = "emit SocketClose (emit (Print ?line) ?w3)"
  let ?opens = "if ?c = 0 then opens @ [port] else opens"
  obtain ts where "connect_timeouts (trace (snd (scan_loop env ip rest ?opens ?w4)))
      = connect_timeouts (trace ?w4) @ ts"
    using scan_loop_timeouts by blast
  then show ?thesis
    using False by (simp add: connect_ex_def Let_def split: if_splits)
qed

text \<open>
  Claim C8 does not hold of the code. In each iteration the socket is created before
  \<^verbatim>\<open>socket.setdefaulttimeout(1)\<close> is called, and a socket takes the default timeout of
  the moment it is created. So the first probe of a loop runs on a socket with the default
  timeout the loop was entered with, which is none in a fresh process: in the run below the
  attempt on port 81 has no deadline, and only the one on port 82 has the deadline of one
  second.
\<close>

theorem first_probe_has_no_deadline:
  "connect_timeouts (trace (snd (main lab
       [''net_diag_tool.py'', ''lab'', ''-s'', ''81,82''] init_world))) = [None, Some 1]"
  by (simp add: run_defs lab_def lab_args_def parse_81_82)

section \<open>Who resolves the host\<close>

lemma scan_loop_resolutions:
  "resolutions (trace (snd (scan_loop env ip ps opens w))) = resolutions (trace w)"
proof (induction ps arbitrary: opens w)
  case Nil
  show ?case by simp
next
  case (Cons p ps)
  show ?case
  proof (cases "p < 0 \<or> 65535 < p")
    case True
    then show ?thesis
      by (simp add: connect_ex_def Let_def)
  next
    case False
    let ?w2 = "(emit (SetDefaultTimeout 1) (emit (SocketNew (defaulttimeout w)) w))
                 \<lparr>defaulttimeout := Some 1\<rparr>"
    let ?c = "connect env (length (trace ?w2)) ip p (defaulttimeout w)"
    let ?w3 = "emit (ConnectEx ip p (defaulttimeout w) (Inr ?c)) ?w2"
    let ?line = "if ?c = 0 then PortOpen p else PortClosed p"
    let ?w4 = "emit SocketClose (emit (Print ?line) ?w3)"
    let ?opens = "if ?c = 0 then opens @ [p] else opens"
    have "resolutions (trace (snd (scan_loop env ip ps ?opens ?w4))) = resolutions (trace ?w4)"
      by (rule Cons.IH)
    then show ?thesis
      using False by (simp add: connect_ex_def Let_def split: if_splits)
  qed
qed

lemma scan_ports_resolutions:
  "resolutions (trace (snd (scan_ports env host ports w))) = resolutions (trace w) @ [host]"
proof -
  have loop: "resolutions (trace (snd (scan_loop env ip ps [] w2))) = resolutions (trace w2)"
    for ip ps w2
    by (rule scan_loop_resolutions)
  show ?thesis
  proof (cases "gethostbyname env (length (trace w)) host")
    case (Inl e)
    then show ?thesis
      by (simp add: scan_ports_def resolve_host_def truthy_def Let_def)
  next
    case (Inr ip)
    let ?w2 = "emit (Print (StartingScan host ip)) (emit (GetHostByName host) w)"
    show ?thesis
    proof (cases "ip = []")
      case True
      then show ?thesis
        using Inr by (simp add: scan_ports_def resolve_host_def truthy_def Let_def)
    next
      case False
      show ?thesis
      proof (cases "parse_ports (split_comma ports)")
        case (Inl e)
        then show ?thesis
          using Inr False by (simp add: scan_ports_def resolve_host_def truthy_def Let_def)
      next
        case pl: (Inr port_list)
        obtain r3 w3 where l: "scan_loop env ip port_list [] ?w2 = (r3, w3)"
          by (cases "scan_loop env ip port_list [] ?w2")
        have "resolutions (trace w3) = resolutions (trace ?w2)"
          using loop [of ip port_list ?w2] l by simp
        then show ?thesis
          using Inr False pl l
          by (cases r3) (simp_all add: scan_ports_def resolve_host_def truthy_def Let_def)
      qed
    qed
  qed
qed

lemma resolutions_lines: "resolutions (map StdoutWrite lines) = []"
  by (induction lines) auto

lemma ping_host_resolutions:
  "resolutions (trace (snd (ping_host env host w))) = resolutions (trace w)"
  by (cases "check_output env (Suc (length (trace w)))
        [''ping'', if windows env then ''-n'' else ''-c'', ''1'', host]")
     (simp_all add: ping_host_def Let_def)

lemma traceroute_resolutions:
  "resolutions (trace (snd (traceroute env host w))) = resolutions (trace w) @ [host]"
proof (cases "gethostbyname env (length (trace w)) host")
  case (Inl e)
  then show ?thesis
    by (simp add: traceroute_def resolve_host_def truthy_def Let_def)
next
  case (Inr ip)
  then show ?thesis
    by (cases "popen env (Suc (Suc (length (trace w))))
          [if windows env then ''tracert'' else ''traceroute'', host]")
       (simp_all add: traceroute_def resolve_host_def truthy_def Let_def trace_write_lines
          resolutions_lines)
qed

lemma scan_loop_extends:
  "\<exists>es. trace (snd (scan_loop env ip ps opens w)) = trace w @ es"
proof (induction ps arbitrary: opens w)
  case Nil
  show ?case by simp
next
  case (Cons p ps)
  show ?case
  proof (cases "p < 0 \<or> 65535 < p")
    case True
    then show ?thesis
      by (simp add: connect_ex_def Let_def)
  next
    case False
    let ?w2 = "(emit (SetDefaultTimeout 1) (emit (SocketNew (defaulttimeout w)) w))
                 \<lparr>defaulttimeout := Some 1\<rparr>"
    let ?c = "connect env (length (trace ?w2)) ip p (defaulttimeout w)"
    let ?w3 = "emit (ConnectEx ip p (defaulttimeout w) (Inr ?c)) ?w2"
    let ?line = "if ?c = 0 then PortOpen p else PortClosed p"
    let ?w4 = "emit SocketClose (emit (Print ?line) ?w3)"
    let ?opens = "if ?c = 0 then opens @ [p] else opens"
    obtain es where "trace (snd (scan_loop env ip ps ?opens ?w4)) = trace ?w4 @ es"
      using Cons.IH by blast
    then show ?thesis
      using False by (simp add: connect_ex_def Let_def split: if_splits)
  qed
qed

lemma main_dispatch_extends:
  "\<exists>es. trace (snd (main_dispatch env a w)) = trace w @ es"
proof -
  define J where "J = (\<lambda>(b :: bool) t. \<exists>es. t = trace w @ es)"
  have step: "J True (t @ [e])" if "J True t" for t e
    using that unfolding J_def by auto
  have steps: "J b (t @ es)" if "J True t" for b t es
    using that unfolding J_def by auto
  have loop: "J (\<not> isl (fst (scan_loop env ip ps opens v))) (trace (snd (scan_loop env ip ps opens v)))"
    if "J True (trace v)" for ip ps opens v
    using that scan_loop_extends [of env ip ps opens v] unfolding J_def by auto
  have scan: "J (\<not> isl (fst (scan_ports env h ports v))) (trace (snd (scan_ports env h ports v)))"
    if "J True (trace v)" for h ports v
  proof (rule scan_ports_invariant [where J = J])
    show "J False t" if "J True t" for t
      using that unfolding J_def by simp
    show "J True (t @ [e])" if "J True t" "quiet e" for t e
      using that(1) by (rule step)
    show "J (\<not> isl (fst (scan_loop env ip ps opens v))) (trace (snd (scan_loop env ip ps opens v)))"
      if "J True (trace v)" for ip ps opens v
      using that by (rule loop)
    show "J True (trace v)" by (rule that)
  qed
  have ping: "J b (trace (snd (ping_host env h v)))" if "J True (trace v)" for b h v
    using ping_host_quiet [of env h v] steps [OF that] by metis
  have tr: "J b (trace (snd (traceroute env h v)))" if "J True (trace v)" for b h v
    using traceroute_quiet [of env h v] steps [OF that] by metis
  have skip: "J (\<not> isl (fst (Inr () :: pyexn + unit, v))) (trace (snd (Inr () :: pyexn + unit, v)))"
    if "J True (trace v)" for v
    using that unfolding J_def by simp
  have start: "J True (trace w)"
    unfolding J_def by simp
  have "J (\<not> isl (fst (main_dispatch env a w))) (trace (snd (main_dispatch env a w)))"
    unfolding main_dispatch_def Let_def
    by (auto intro!: then_do_invariant [where J = J] ping tr scan skip start)
  then show ?thesis
    unfolding J_def by simp
qed

lemma main_resolves_first:
  assumes argv: "length argv \<noteq> 1" and a: "parse_args env argv = Inr a"
  shows "\<exists>es. trace (snd (main env argv w))
      = trace w @ [Print Banner, Print (Resolving (arg_host a)), GetHostByName (arg_host a)] @ es"
proof -
  let ?h = "arg_host a"
  let ?w3 = "emit (GetHostByName ?h) (emit (Print (Resolving ?h)) (emit (Print Banner) w))"
  show ?thesis
  proof (cases "gethostbyname env (length (trace w) + 2) ?h")
    case (Inl e)
    show ?thesis
    proof (cases "e = Gaierror")
      case True
      obtain es where
        "trace (snd (main_dispatch env a (emit (Print (CouldNotResolve ?h)) ?w3)))
           = trace (emit (Print (CouldNotResolve ?h)) ?w3) @ es"
        using main_dispatch_extends by blast
      then show ?thesis
        using argv a Inl True by (simp add: main_def resolve_host_def truthy_def Let_def)
    next
      case False
      then show ?thesis
        using argv a Inl by (simp add: main_def resolve_host_def truthy_def Let_def)
    qed
  next
    case (Inr ip)
    let ?w4 = "if ip \<noteq> [] then emit (Print (Resolved ?h ip)) ?w3
               else emit (Print (CouldNotResolve ?h)) ?w3"
    obtain es where "trace (snd (main_dispatch env a ?w4)) = trace ?w4 @ es"
      using main_dispatch_extends by blast
    then show ?thesis
      using argv a Inr by (simp add: main_def resolve_host_def truthy_def Let_def split: if_splits)
  qed
qed

text \<open>
  Claim C6, as the code has it. The host is not resolved once. In every run whose arguments
  parse, \<^verbatim>\<open>main\<close> looks the host up before any step: after the banner and the line that
  announces it, the lookup is the first thing the run does. Then \<^verbatim>\<open>scan_ports\<close> looks
  up the host it is given again, by itself, once per call, and so does \<^verbatim>\<open>traceroute\<close>;
  \<^verbatim>\<open>ping_host\<close> makes no lookup. When the scanner's lookup fails the scanner prints that
  it cannot resolve the host and returns without creating a socket. \<^verbatim>\<open>main\<close> does not
  skip any step when its own lookup fails: it reports the failure and goes on to the
  requested steps.
\<close>

theorem scanner_resolves_again:
  "resolutions (trace (snd (scan_ports env host ports w))) = resolutions (trace w) @ [host]
   \<and> resolutions (trace (snd (traceroute env host w))) = resolutions (trace w) @ [host]
   \<and> resolutions (trace (snd (ping_host env host w))) = resolutions (trace w)
   \<and> (gethostbyname env (length (trace w)) host = Inl Gaierror \<longrightarrow>
        scan_ports env host ports w
          = (Inr (), emit (Print (CannotResolveScan host)) (emit (GetHostByName host) w)))
   \<and> (length argv \<noteq> 1 \<longrightarrow> parse_args env argv = Inr a \<longrightarrow>
        (\<exists>es. trace (snd (main env argv w))
           = trace w @ [Print Banner, Print (Resolving (arg_host a)), GetHostByName (arg_host a)]
               @ es))
   \<and> (length argv \<noteq> 1 \<longrightarrow> parse_args env argv = Inr a \<longrightarrow>
        gethostbyname env (length (trace w) + 2) (arg_host a) = Inl Gaierror \<longrightarrow>
        main env argv w
          = main_dispatch env a
              (emit (Print (CouldNotResolve (arg_host a)))
                (emit (GetHostByName (arg_host a))
                  (emit (Print (Resolving (arg_host a))) (emit (Print Banner) w)))))"
proof (intro conjI impI)
  show "resolutions (trace (snd (scan_ports env host ports w))) = resolutions (trace w) @ [host]"
    by (rule scan_ports_resolutions)
  show "resolutions (trace (snd (traceroute env host w))) = resolutions (trace w) @ [host]"
    by (rule traceroute_resolutions)
  show "resolutions (trace (snd (ping_host env host w))) = resolutions (trace w)"
    by (rule ping_host_resolutions)
next
  assume "gethostbyname env (length (trace w)) host = Inl Gaierror"
  then show "scan_ports env host ports w
      = (Inr (), emit (Print (CannotResolveScan host)) (emit (GetHostByName host) w))"
    by (simp add: scan_ports_def resolve_host_def truthy_def Let_def)
next
  assume "length argv \<noteq> 1" "parse_args env argv = Inr a"
  then show "\<exists>es. trace (snd (main env argv w))
      = trace w @ [Print Banner, Print (Resolving (arg_host a)), GetHostByName (arg_host a)] @ es"
    by (rule main_resolves_first)
next
  assume "length argv \<noteq> 1" "parse_args env argv = Inr a"
    "gethostbyname env (length (trace w) + 2) (arg_host a) = Inl Gaierror"
  then show "main env argv w
      = main_dispatch env a
          (emit (Print (CouldNotResolve (arg_host a)))
            (emit (GetHostByName (arg_host a))
              (emit (Print (Resolving (arg_host a))) (emit (Print Banner) w))))"
    by (simp add: main_def resolve_host_def truthy_def Let_def)
qed

theorem scanner_resolves_again_witness:
  "gethostbyname lab_no_dns (length (trace init_world)) ''lab'' = Inl Gaierror
   \<and> scan_ports lab_no_dns ''lab'' ''80'' init_world
       = (Inr (), emit (Print (CannotResolveScan ''lab'')) (emit (GetHostByName ''lab'') init_world))
   \<and> length [''net_diag_tool.py'', ''lab'', ''-s'', ''80''] \<noteq> 1
   \<and> parse_args lab_no_dns [''net_diag_tool.py'', ''lab'', ''-s'', ''80'']
       = Inr \<lparr>arg_host = ''lab'', arg_ping = False, arg_scan = Some ''80'',
              arg_traceroute = False, arg_all = False\<rparr>
   \<and> (\<exists>es. trace (snd (main lab_no_dns [''net_diag_tool.py'', ''lab'', ''-s'', ''80''] init_world))
         = trace init_world
             @ [Print Banner, Print (Resolving ''lab''), GetHostByName ''lab''] @ es)
   \<and> gethostbyname lab_no_dns (length (trace init_world) + 2) ''lab'' = Inl Gaierror
   \<and> main lab_no_dns [''net_diag_tool.py'', ''lab'', ''-s'', ''80''] init_world
       = main_dispatch lab_no_dns
           \<lparr>arg_host = ''lab'', arg_ping = False, arg_scan = Some ''80'',
             arg_traceroute = False, arg_all = False\<rparr>
           (emit (Print (CouldNotResolve ''lab''))
             (emit (GetHostByName ''lab'')
               (emit (Print (Resolving ''lab'')) (emit (Print Banner) init_world))))"
proof -
  let ?argv = "[''net_diag_tool.py'', ''lab'', ''-s'', ''80'']"
  let ?a = "\<lparr>arg_host = ''lab'', arg_ping = False, arg_scan = Some ''80'',
              arg_traceroute = False, arg_all = False\<rparr>"
  have g: "gethostbyname lab_no_dns c ''lab'' = Inl Gaierror" for c
    by (simp add: lab_no_dns_def)
  have g2: "gethostbyname lab_no_dns (length (trace init_world) + 2) (arg_host ?a) = Inl Gaierror"
    by (simp add: lab_no_dns_def)
  have p: "parse_args lab_no_dns ?argv = Inr ?a"
    by (simp add: lab_no_dns_def lab_def lab_args_def)
  have l: "length ?argv \<noteq> 1"
    by simp
  note s = scanner_resolves_again [where env = lab_no_dns and host = "''lab''" and ports = "''80''"
        and w = init_world and argv = ?argv and a = ?a]
  have c1: "scan_ports lab_no_dns ''lab'' ''80'' init_world
       = (Inr (), emit (Print (CannotResolveScan ''lab'')) (emit (GetHostByName ''lab'') init_world))"
    using s g by blast
  have c2: "\<exists>es. trace (snd (main lab_no_dns ?argv init_world))
         = trace init_world
             @ [Print Banner, Print (Resolving (arg_host ?a)), GetHostByName (arg_host ?a)] @ es"
    using s l p by blast
  have c3: "main lab_no_dns ?argv init_world
       = main_dispatch lab_no_dns ?a
           (emit (Print (CouldNotResolve (arg_host ?a)))
             (emit (GetHostByName (arg_host ?a))
               (emit (Print (Resolving (arg_host ?a))) (emit (Print Banner) init_world))))"
    using s l p g2 by blast
  have c2a: "\<exists>es. trace (snd (main lab_no_dns ?argv init_world))
         = trace init_world @ [Print Banner, Print (Resolving ''lab''), GetHostByName ''lab''] @ es"
    using c2 by (simp only: args.simps)
  have c3a: "main lab_no_dns ?argv init_world
       = main_dispatch lab_no_dns ?a
           (emit (Print (CouldNotResolve ''lab''))
             (emit (GetHostByName ''lab'')
               (emit (Print (Resolving ''lab'')) (emit (Print Banner) init_world))))"
    using c3 by (simp only: args.simps)
  from g [of "length (trace init_world)"] c1 l p c2a g [of "length (trace init_world) + 2"] c3a
  show ?thesis
    by (intro conjI)
qed

lemma parse_80: "parse_ports (split_comma ''80'') = Inr [80]"
  by code_simp

text \<open>The claim as stated fails on \<^verbatim>\<open>net_diag_tool.py lab -s 80\<close>: the name is looked
  up twice in the run, and one of the lookups is the scanner's own.\<close>

theorem host_resolved_twice:
  "resolutions (trace (snd (main lab [''net_diag_tool.py'', ''lab'', ''-s'', ''80''] init_world)))
     = [''lab'', ''lab'']
   \<and> resolutions (trace (snd (scan_ports lab ''lab'' ''80'' init_world))) = [''lab'']"
  by (simp add: run_defs lab_def lab_args_def parse_80)

section \<open>The flag for all checks\<close>

lemma ping_host_probes:
  "probed_ports (trace (snd (ping_host env host w))) = probed_ports (trace w)"
  using ping_host_quiet [of env host w] quiet_events by auto

lemma traceroute_probes:
  "probed_ports (trace (snd (traceroute env host w))) = probed_ports (trace w)"
  using traceroute_quiet [of env host w] quiet_events by auto

lemma parse_common_ports:
  "parse_ports (split_comma common_ports) = Inr [21, 22, 80, 443, 3306, 8000, 8080]"
  by code_simp

lemma scan_ports_probes:
  assumes p: "parse_ports (split_comma ports) = Inr port_list"
    and rng: "list_all (\<lambda>port. 0 \<le> port \<and> port \<le> 65535) port_list"
  shows "probed_ports (trace (snd (scan_ports env host ports w))) = probed_ports (trace w)
    \<or> probed_ports (trace (snd (scan_ports env host ports w))) = probed_ports (trace w) @ port_list"
proof (cases "gethostbyname env (length (trace w)) host")
  case (Inl e)
  then show ?thesis
    by (simp add: scan_ports_def resolve_host_def truthy_def Let_def)
next
  case (Inr ip)
  show ?thesis
  proof (cases "ip = []")
    case True
    then show ?thesis
      using Inr by (simp add: scan_ports_def resolve_host_def truthy_def Let_def)
  next
    case False
    from scan_ports_complete [OF Inr False p rng] show ?thesis
      by auto
  qed
qed

text \<open>
  Claim C10. With \<^verbatim>\<open>--all\<close> the run is ping, then the scan of
  \<^verbatim>\<open>21,22,80,443,3306,8000,8080\<close>, then traceroute, each step only if the one before
  returned; the values of \<^verbatim>\<open>-p\<close>, \<^verbatim>\<open>-s\<close> and \<^verbatim>\<open>-t\<close> change nothing, and the only
  ports probed are the seven default ports (or none, when the scan does not get to its
  loop): a list given with \<^verbatim>\<open>-s\<close> is not scanned.
\<close>

theorem all_flag_runs_fixed_sequence:
  assumes "arg_all a"
  shows "main_dispatch env a w
      = then_do (then_do (ping_host env (arg_host a) w)
                   (scan_ports env (arg_host a) ''21,22,80,443,3306,8000,8080''))
          (traceroute env (arg_host a))
    \<and> main_dispatch env (a\<lparr>arg_ping := p, arg_scan := s, arg_traceroute := t\<rparr>) w
      = main_dispatch env a w
    \<and> (probed_ports (trace (snd (main_dispatch env a w))) = probed_ports (trace w)
       \<or> probed_ports (trace (snd (main_dispatch env a w)))
            = probed_ports (trace w) @ [21, 22, 80, 443, 3306, 8000, 8080])"
proof (intro conjI)
  show eq: "main_dispatch env a w
      = then_do (then_do (ping_host env (arg_host a) w)
                   (scan_ports env (arg_host a) ''21,22,80,443,3306,8000,8080''))
          (traceroute env (arg_host a))"
    using assms by (simp add: main_dispatch_def common_ports_def Let_def)
  show "main_dispatch env (a\<lparr>arg_ping := p, arg_scan := s, arg_traceroute := t\<rparr>) w
      = main_dispatch env a w"
    using assms by (simp add: main_dispatch_def Let_def)
  let ?ports = "[21, 22, 80, 443, 3306, 8000, 8080] :: int list"
  let ?P = "\<lambda>r. probed_ports (trace (snd r)) = probed_ports (trace w)
              \<or> probed_ports (trace (snd r)) = probed_ports (trace w) @ ?ports"
  obtain r1 w1 where r1: "ping_host env (arg_host a) w = (r1, w1)"
    by (cases "ping_host env (arg_host a) w")
  have w1: "probed_ports (trace w1) = probed_ports (trace w)"
    using ping_host_probes [of env "arg_host a" w] r1 by simp
  obtain r2 w2 where r2: "scan_ports env (arg_host a) common_ports w1 = (r2, w2)"
    by (cases "scan_ports env (arg_host a) common_ports w1")
  have w2: "probed_ports (trace w2) = probed_ports (trace w)
      \<or> probed_ports (trace w2) = probed_ports (trace w) @ ?ports"
    using scan_ports_probes [OF parse_common_ports, of env "arg_host a" w1] r2 w1 by simp
  have w3: "probed_ports (trace (snd (traceroute env (arg_host a) w2))) = probed_ports (trace w2)"
    by (rule traceroute_probes)
  have "?P (main_dispatch env a w)"
    using assms r1 r2 w1 w2 w3
    by (cases r1; cases r2) (simp_all add: main_dispatch_def then_do_def Let_def)
  then show "probed_ports (trace (snd (main_dispatch env a w))) = probed_ports (trace w)
       \<or> probed_ports (trace (snd (main_dispatch env a w))) = probed_ports (trace w) @ ?ports"
    by simp
qed

theorem all_flag_runs_fixed_sequence_witness:
  "arg_all \<lparr>arg_host = ''lab'', arg_ping = False, arg_scan = Some ''9999'',
            arg_traceroute = False, arg_all = True\<rparr>
   \<and> main_dispatch lab \<lparr>arg_host = ''lab'', arg_ping = False, arg_scan = Some ''9999'',
            arg_traceroute = False, arg_all = True\<rparr> init_world
     = main_dispatch lab \<lparr>arg_host = ''lab'', arg_ping = True, arg_scan = None,
            arg_traceroute = True, arg_all = True\<rparr> init_world
   \<and> probed_ports (trace (snd (main_dispatch lab
          \<lparr>arg_host = ''lab'', arg_ping = False, arg_scan = Some ''9999'',
            arg_traceroute = False, arg_all = True\<rparr> init_world)))
     = [21, 22, 80, 443, 3306, 8000, 8080]"
proof -
  let ?a = "\<lparr>arg_host = ''lab'', arg_ping = False, arg_scan = Some ''9999'',
            arg_traceroute = False, arg_all = True\<rparr>"
  have run: "probed_ports (trace (snd (then_do (then_do (ping_host lab ''lab'' init_world)
                   (scan_ports lab ''lab'' ''21,22,80,443,3306,8000,8080''))
          (traceroute lab ''lab'')))) = [21, 22, 80, 443, 3306, 8000, 8080]"
    using parse_common_ports
    by (simp add: run_defs lab_def common_ports_def ECONNREFUSED_def EAGAIN_def)
  have a: "arg_all ?a" by simp
  from all_flag_runs_fixed_sequence [OF a, of lab init_world True None True]
  have "main_dispatch lab ?a init_world
      = then_do (then_do (ping_host lab ''lab'' init_world)
                   (scan_ports lab ''lab'' ''21,22,80,443,3306,8000,8080''))
          (traceroute lab ''lab'')"
    and "main_dispatch lab \<lparr>arg_host = ''lab'', arg_ping = True, arg_scan = None,
            arg_traceroute = True, arg_all = True\<rparr> init_world
      = main_dispatch lab ?a init_world"
    by simp_all
  then show ?thesis
    using run by simp
qed

end
